theory Spec2Isabelle
  imports Complex_Main "HOL-Library.Word" "HOL-Library.Sublist"
begin

section \<open>Strings\<close>

text \<open>
  A JavaScript string is a sequence of UTF-16 code units, and \<open>s.length\<close> counts
  them. Literals of the source are ASCII and are written with \<open>ustr\<close>.
\<close>

type_synonym ustring = "16 word list"

definition ustr :: "string \<Rightarrow> ustring" where
  "ustr s = map (\<lambda>c. of_nat (of_char c)) s"

text \<open>
  The code units that \<open>String.prototype.trim\<close> strips and that the regular
  expression class \<open>\s\<close> matches (ECMAScript WhiteSpace and LineTerminator).
\<close>

definition isWhiteSpace :: "16 word \<Rightarrow> bool" where
  "isWhiteSpace c =
     (c \<in> set [0x09, 0x0A, 0x0B, 0x0C, 0x0D, 0x20, 0xA0, 0x1680,
                0x2028, 0x2029, 0x202F, 0x205F, 0x3000, 0xFEFF]
      \<or> (0x2000 \<le> c \<and> c \<le> 0x200A))"

definition trim :: "ustring \<Rightarrow> ustring" where
  "trim s = rev (dropWhile isWhiteSpace (rev (dropWhile isWhiteSpace s)))"

text \<open>\<open>Array.prototype.join\<close> on an array of strings.\<close>

fun join :: "ustring \<Rightarrow> ustring list \<Rightarrow> ustring" where
  "join sep [] = []"
| "join sep [x] = x"
| "join sep (x # y # ys) = x @ sep @ join sep (y # ys)"

text \<open>
  \<open>s.replace(/pat/g, rep)\<close> for a literal, non-empty pattern: the matches are taken
  from left to right and do not overlap.
\<close>

function replaceAll :: "ustring \<Rightarrow> ustring \<Rightarrow> ustring \<Rightarrow> ustring" where
  "replaceAll pat rep [] = []"
| "replaceAll pat rep (c # cs) =
     (if pat \<noteq> [] \<and> prefix pat (c # cs)
      then rep @ replaceAll pat rep (drop (length pat) (c # cs))
      else c # replaceAll pat rep cs)"
  by pat_completeness auto
termination
  by (relation "measure (\<lambda>(pat, rep, s). length s)") auto

definition newline :: ustring where
  "newline = [0x0A]"

section \<open>Errors\<close>

text \<open>
  Errors raised by the libraries the program calls (axios, cheerio, JSON.parse, the file
  system, the Gemini SDK, the Chroma client).
\<close>

datatype lib_error =
    NetworkError
  | Timeout
  | HtmlParseError
  | SyntaxError
  | FileError
  | ProviderError
  | IndexUnavailable

text \<open>
  Errors the program itself throws, one constructor per \<open>new Error(message)\<close> of the
  source, the runtime's TypeError, and library errors that pass through unchanged:
  \<^item> \<open>CollectionNotInitialized\<close>: 'Collection is not initialized'
  \<^item> \<open>EmbeddingFailed\<close>: 'Failed to generate embedding'
  \<^item> \<open>InvalidResponseStructure\<close>: 'Invalid response structure'
  \<^item> \<open>InvalidStructure\<close>: 'Invalid structure'
  \<^item> \<open>GenerationFailed\<close>: the message thrown by generateStreamingResponse
\<close>

datatype error =
    CollectionNotInitialized
  | EmbeddingFailed
  | InvalidResponseStructure
  | InvalidStructure
  | GenerationFailed
  | TypeError
  | Lib lib_error

section \<open>Data model\<close>

record Article =
  Source :: ustring
  URL :: ustring

record ProcessedArticle =
  pa_title :: ustring
  pa_content :: ustring
  pa_url :: ustring
  pa_time :: "ustring option"

text \<open>
  What cheerio selects from a loaded page: the text of the first \<open>h1\<close>, the text of
  the first \<open>time\<close> element (both empty when there is none), and the elements
  matched by \<open>"h1, h2, h3, p, ul, li"\<close> under \<open>body\<close>, in document order, with their
  text.
\<close>

datatype tag = H1 | H2 | H3 | P | UL | LI

record page =
  h1_text :: ustring
  time_text :: ustring
  body_elements :: "(tag \<times> ustring) list"

text \<open>A value produced by \<open>JSON.parse\<close>; a number is kept as mantissa and decimal exponent.\<close>

datatype json =
    JNull
  | JBool bool
  | JNum int int
  | JStr ustring
  | JArr "json list"
  | JObj "(ustring \<times> json) list"

type_synonym embedding = "real list"

datatype meta_value = MString ustring | MNumber real | MBoolean bool

type_synonym DocumentMetadata = "(ustring \<times> meta_value) list"

record DocumentData =
  doc_id :: ustring
  doc_content :: ustring
  doc_embedding :: "embedding option"
  doc_metadata :: "DocumentMetadata option"

record IngestResult =
  success :: bool
  url :: ustring
  error :: "error option"

subsection \<open>The vector index\<close>

text \<open>
  The Chroma server holds named collections of rows. A request for rows carries parallel
  arrays; a row keeps one entry of each.
\<close>

record chroma_row =
  row_id :: ustring
  row_embedding :: "embedding option"
  row_metadata :: DocumentMetadata
  row_document :: ustring

record chroma_collection =
  col_metadata :: "(ustring \<times> ustring) list"
  col_rows :: "chroma_row list"

text \<open>
  The response of \<open>collection.query\<close>: each field may be missing (null), and holds one
  row of entries per query embedding. An entry of \<open>documents\<close> or \<open>metadatas\<close> may be
  null.
\<close>

record QueryResponse =
  qr_ids :: "ustring list list option"
  qr_documents :: "ustring option list list option"
  qr_embeddings :: "embedding list list option"
  qr_metadatas :: "DocumentMetadata option list list option"

subsection \<open>The outside world\<close>

text \<open>
  Every call that leaves the process is recorded as an event, in call order. The answer
  of an outside service may depend on everything that happened before, so each service
  is a function of the events so far and of its argument.
\<close>

datatype event =
    HttpGet ustring
  | Generate ustring
  | Embed ustring
  | ReadFile ustring
  | Uuid
  | GetOrCreateCollection ustring "(ustring \<times> ustring) list"
  | CountCollections
  | CollectionAdd ustring "chroma_row list"
  | CollectionQuery ustring "embedding list" nat "string list"
  | CollectionUpdate ustring chroma_row
  | CollectionDelete ustring "ustring list"

record env =
  axios_get :: "event list \<Rightarrow> ustring \<Rightarrow> lib_error + ustring"
  cheerio_load :: "ustring \<Rightarrow> lib_error + page"
  generateContentStream :: "event list \<Rightarrow> ustring \<Rightarrow> ustring list \<times> lib_error option"
  JSON_parse :: "ustring \<Rightarrow> lib_error + json"
  embedContent :: "event list \<Rightarrow> ustring \<Rightarrow> lib_error + embedding"
  csv_rows :: "event list \<Rightarrow> ustring \<Rightarrow> lib_error + Article list"
  uuidv4 :: "event list \<Rightarrow> ustring"
  index_fault :: "event list \<Rightarrow> lib_error option"
  index_nearest :: "event list \<Rightarrow> chroma_row list \<Rightarrow> embedding list \<Rightarrow> nat \<Rightarrow> QueryResponse"

text \<open>
  The state of the process and of the index: the events so far, the collections of the
  Chroma server by name, the fields \<open>collection\<close> (null until a handle is stored; a
  handle is the collection's name) and \<open>csvFile\<close> of the ChromaVectorDB object.
\<close>

record state =
  events :: "event list"
  index :: "(ustring \<times> chroma_collection) list"
  collection :: "ustring option"
  csvFile :: ustring

type_synonym 'a result = "(error + 'a) \<times> state"

definition emit :: "event \<Rightarrow> state \<Rightarrow> state" where
  "emit e st = st\<lparr>events := events st @ [e]\<rparr>"

section \<open>utils.ts\<close>

subsection \<open>readCSV\<close>

definition readCSV :: "env \<Rightarrow> state \<Rightarrow> ustring \<Rightarrow> Article list result" where
  "readCSV env st fileName =
     (case csv_rows env (events st) fileName of
        Inl e \<Rightarrow> (Inl (Lib e), emit (ReadFile fileName) st)
      | Inr rows \<Rightarrow> (Inr rows, emit (ReadFile fileName) st))"

subsection \<open>scrapeArticle\<close>

text \<open>The elements with non-empty trimmed text, as pushed by the \<open>each\<close> callback.\<close>

definition elements :: "page \<Rightarrow> (tag \<times> ustring) list" where
  "elements pg =
     filter (\<lambda>(tagName, text). text \<noteq> [])
       (map (\<lambda>(tagName, text). (tagName, trim text)) (body_elements pg))"

text \<open>One step of the \<open>forEach\<close> over the elements: the state is (markdownLines, inList).\<close>

fun markdownStep :: "ustring list \<times> bool \<Rightarrow> tag \<times> ustring \<Rightarrow> ustring list \<times> bool" where
  "markdownStep (ls, inList) (H1, text) = (ls @ [ustr ''# '' @ text], inList)"
| "markdownStep (ls, inList) (H2, text) = (ls @ [ustr ''## '' @ text], inList)"
| "markdownStep (ls, inList) (H3, text) = (ls @ [ustr ''### '' @ text], inList)"
| "markdownStep (ls, inList) (P, text) = (ls @ [text], inList)"
| "markdownStep (ls, inList) (UL, text) = (if \<not> inList then (ls @ [[]], True) else (ls, inList))"
| "markdownStep (ls, inList) (LI, text) = (if inList then (ls @ [ustr ''- '' @ text], inList) else (ls, inList))"

definition markdownLines :: "page \<Rightarrow> ustring list" where
  "markdownLines pg =
     (let title = trim (h1_text pg);
          time = trim (time_text pg);
          body = fst (foldl markdownStep ([], False) (elements pg));
          withTitle = (if title \<noteq> [] then (ustr ''# '' @ title) # body else body)
      in if time \<noteq> [] then (ustr ''**Publication date:** '' @ time) # withTitle else withTitle)"

text \<open>The body of the \<open>try\<close> block of scrapeArticle.\<close>

definition scrapeBody :: "env \<Rightarrow> state \<Rightarrow> ustring \<Rightarrow> ProcessedArticle result" where
  "scrapeBody env st u =
     (case axios_get env (events st) u of
        Inl e \<Rightarrow> (Inl (Lib e), emit (HttpGet u) st)
      | Inr data \<Rightarrow>
          (case cheerio_load env data of
             Inl e \<Rightarrow> (Inl (Lib e), emit (HttpGet u) st)
           | Inr pg \<Rightarrow>
               (Inr \<lparr>pa_title = trim (h1_text pg),
                     pa_content = join (newline @ newline) (markdownLines pg),
                     pa_url = u,
                     pa_time = (if trim (time_text pg) \<noteq> [] then Some (trim (time_text pg)) else None)\<rparr>,
                emit (HttpGet u) st)))"

definition sentinel :: "ustring \<Rightarrow> ProcessedArticle" where
  "sentinel u =
     \<lparr>pa_title = ustr ''Can not load information'', pa_content = [], pa_url = u, pa_time = None\<rparr>"

definition scrapeArticle :: "env \<Rightarrow> state \<Rightarrow> ustring \<Rightarrow> ProcessedArticle result" where
  "scrapeArticle env st u =
     (case scrapeBody env st u of
        (Inr a, st') \<Rightarrow> (Inr a, st')
      | (Inl e, st') \<Rightarrow> (Inr (sentinel u), st'))"

section \<open>gemini.ts: generateStreamingResponse, generateResponse\<close>

text \<open>
  The provider's stream delivers some chunks and then either ends or fails.
  generateStreamingResponse yields the text of each chunk and turns any failure into its
  own error.
\<close>

definition generateStreamingResponse ::
  "env \<Rightarrow> state \<Rightarrow> ustring \<Rightarrow> (ustring list \<times> error option) \<times> state" where
  "generateStreamingResponse env st prompt =
     (case generateContentStream env (events st) prompt of
        (chunks, None) \<Rightarrow> ((chunks, None), emit (Generate prompt) st)
      | (chunks, Some e) \<Rightarrow> ((chunks, Some GenerationFailed), emit (Generate prompt) st))"

definition generateResponse :: "env \<Rightarrow> state \<Rightarrow> ustring \<Rightarrow> ustring result" where
  "generateResponse env st prompt =
     (case generateStreamingResponse env st prompt of
        ((chunks, None), st') \<Rightarrow> (Inr (foldl (\<lambda>fullResponse chunk. fullResponse @ chunk) [] chunks), st')
      | ((chunks, Some e), st') \<Rightarrow> (Inl e, st'))"

section \<open>utils.ts: getClusteredText\<close>

definition MAX_RETRIES :: nat where
  "MAX_RETRIES = 1"

definition MIN_CONTENT_LENGTH :: nat where
  "MIN_CONTENT_LENGTH = 100"

definition sanitize :: "ustring \<Rightarrow> ustring" where
  "sanitize text = map (\<lambda>c. if c = 0x22 then 0x27 else c) text"

definition clusterPrompt :: "ustring \<Rightarrow> ustring" where
  "clusterPrompt sanitizedText =
     join newline (map ustr
       ['''',
        ''  You are given a set of rules and an article's text scraped from a news website in markdown.'',
        ''  Strictly follow these rules to structure the article into logical blocks:'',
        '''',
        ''  1. Analyze hierarchical structure.'',
        ''  2. Split the text into logical blocks:'',
        ''     - \"heading\": heading text'',
        ''     - \"content\": 3-5 related paragraphs'',
        ''  3. If no headings found:'',
        ''     - Create logical sections by topic'',
        ''  4. Preserve all key information'',
        ''  5. Remove non-content elements (ads, comments, navigation, everything not related to the article)'',
        '''',
        ''  Return a JSON array:'',
        ''  [{'',
        ''    \"heading\": \"Section Title\",'',
        ''    \"content\": \"Text content...\"'',
        ''  },...]'',
        '''',
        ''  Article text: \"''])
     @ sanitizedText
     @ join newline (map ustr [''\"'', ''  ''])"

text \<open>
  The callback of \<open>parsed.every\<close>. Reading a property of null throws a TypeError; a
  property that is absent, or read from a number, boolean, string or array, is undefined.
\<close>

fun blockCheck :: "json \<Rightarrow> error + bool" where
  "blockCheck JNull = Inl TypeError"
| "blockCheck (JObj props) =
     Inr (case map_of props (ustr ''heading'') of
            Some (JStr h) \<Rightarrow>
              (case map_of props (ustr ''content'') of
                 Some (JStr c) \<Rightarrow> MIN_CONTENT_LENGTH \<le> length c
               | _ \<Rightarrow> False)
          | _ \<Rightarrow> False)"
| "blockCheck b = Inr False"

text \<open>\<open>Array.prototype.every\<close>: it stops at the first element that fails.\<close>

fun every :: "('a \<Rightarrow> error + bool) \<Rightarrow> 'a list \<Rightarrow> error + bool" where
  "every p [] = Inr True"
| "every p (b # bs) =
     (case p b of
        Inl e \<Rightarrow> Inl e
      | Inr ok \<Rightarrow> if ok then every p bs else Inr False)"

definition fence :: ustring where
  "fence = [0x60, 0x60, 0x60]"

definition stripFences :: "ustring \<Rightarrow> ustring" where
  "stripFences answer = trim (replaceAll fence [] (replaceAll (fence @ ustr ''json'') [] answer))"

text \<open>The body of the \<open>try\<close> block of one attempt.\<close>

definition clusterAttempt :: "env \<Rightarrow> state \<Rightarrow> ustring \<Rightarrow> json list result" where
  "clusterAttempt env st prompt =
     (case generateResponse env st prompt of
        (Inl e, st') \<Rightarrow> (Inl e, st')
      | (Inr answer, st') \<Rightarrow>
          (case JSON_parse env (stripFences answer) of
             Inl e \<Rightarrow> (Inl (Lib e), st')
           | Inr parsed \<Rightarrow>
               (case parsed of
                  JArr blocks \<Rightarrow>
                    (case every blockCheck blocks of
                       Inl e \<Rightarrow> (Inl e, st')
                     | Inr isValid \<Rightarrow>
                         if \<not> isValid then (Inl InvalidStructure, st') else (Inr blocks, st'))
                | _ \<Rightarrow> (Inl InvalidStructure, st'))))"

function clusterLoop :: "env \<Rightarrow> state \<Rightarrow> ustring \<Rightarrow> nat \<Rightarrow> json list result" where
  "clusterLoop env st prompt attempt =
     (if attempt < MAX_RETRIES
      then (case clusterAttempt env st prompt of
              (Inr parsed, st') \<Rightarrow> (Inr parsed, st')
            | (Inl e, st') \<Rightarrow> clusterLoop env st' prompt (attempt + 1))
      else (Inr [], st))"
  by pat_completeness auto
termination
  by (relation "measure (\<lambda>(env, st, prompt, attempt). MAX_RETRIES - attempt)") auto

definition getClusteredText :: "env \<Rightarrow> state \<Rightarrow> ustring \<Rightarrow> json list result" where
  "getClusteredText env st text = clusterLoop env st (clusterPrompt (sanitize text)) 0"

section \<open>gemini.ts: the Chroma client\<close>

text \<open>
  The calls of the Chroma client, after the service's interface: collections are
  addressed by name, \<open>getOrCreateCollection\<close> opens the collection of that name and
  creates it only when there is none, \<open>countCollections\<close> counts the collections of the
  server, \<open>add\<close> appends rows, \<open>update\<close> overwrites the rows of the given id and
  \<open>delete\<close> removes them. Any call may fail (the index is down); a failed call changes
  nothing. Which rows are nearest to a query embedding is the index's business
  (\<open>index_nearest\<close>).
\<close>

definition cosineSpace :: "(ustring \<times> ustring) list" where
  "cosineSpace = [(ustr ''hnsw:space'', ustr ''cosine'')]"

definition client_getOrCreateCollection ::
  "env \<Rightarrow> state \<Rightarrow> ustring \<Rightarrow> (ustring \<times> ustring) list \<Rightarrow> ustring result" where
  "client_getOrCreateCollection env st name md =
     (case index_fault env (events st) of
        Some e \<Rightarrow> (Inl (Lib e), emit (GetOrCreateCollection name md) st)
      | None \<Rightarrow>
          (Inr name,
           emit (GetOrCreateCollection name md)
             (case map_of (index st) name of
                Some c \<Rightarrow> st
              | None \<Rightarrow> st\<lparr>index := index st @ [(name, \<lparr>col_metadata = md, col_rows = []\<rparr>)]\<rparr>)))"

definition client_countCollections :: "env \<Rightarrow> state \<Rightarrow> nat result" where
  "client_countCollections env st =
     (case index_fault env (events st) of
        Some e \<Rightarrow> (Inl (Lib e), emit CountCollections st)
      | None \<Rightarrow> (Inr (length (index st)), emit CountCollections st))"

definition rowsOf :: "state \<Rightarrow> ustring \<Rightarrow> chroma_row list" where
  "rowsOf st name = (case map_of (index st) name of Some c \<Rightarrow> col_rows c | None \<Rightarrow> [])"

definition changeRows :: "ustring \<Rightarrow> (chroma_row list \<Rightarrow> chroma_row list) \<Rightarrow> state \<Rightarrow> state" where
  "changeRows name f st =
     st\<lparr>index := map (\<lambda>(n, c). if n = name then (n, c\<lparr>col_rows := f (col_rows c)\<rparr>) else (n, c)) (index st)\<rparr>"

definition chroma_add :: "env \<Rightarrow> state \<Rightarrow> ustring \<Rightarrow> chroma_row list \<Rightarrow> unit result" where
  "chroma_add env st name rows =
     (case index_fault env (events st) of
        Some e \<Rightarrow> (Inl (Lib e), emit (CollectionAdd name rows) st)
      | None \<Rightarrow> (Inr (), emit (CollectionAdd name rows) (changeRows name (\<lambda>old. old @ rows) st)))"

definition chroma_query ::
  "env \<Rightarrow> state \<Rightarrow> ustring \<Rightarrow> embedding list \<Rightarrow> nat \<Rightarrow> string list \<Rightarrow> QueryResponse result" where
  "chroma_query env st name queryEmbeddings nResults include =
     (case index_fault env (events st) of
        Some e \<Rightarrow> (Inl (Lib e), emit (CollectionQuery name queryEmbeddings nResults include) st)
      | None \<Rightarrow>
          (Inr (index_nearest env (events st) (rowsOf st name) queryEmbeddings nResults),
           emit (CollectionQuery name queryEmbeddings nResults include) st))"

definition chroma_update :: "env \<Rightarrow> state \<Rightarrow> ustring \<Rightarrow> chroma_row \<Rightarrow> unit result" where
  "chroma_update env st name row =
     (case index_fault env (events st) of
        Some e \<Rightarrow> (Inl (Lib e), emit (CollectionUpdate name row) st)
      | None \<Rightarrow>
          (Inr (),
           emit (CollectionUpdate name row)
             (changeRows name (map (\<lambda>old. if row_id old = row_id row then row else old)) st)))"

definition chroma_delete :: "env \<Rightarrow> state \<Rightarrow> ustring \<Rightarrow> ustring list \<Rightarrow> unit result" where
  "chroma_delete env st name ids =
     (case index_fault env (events st) of
        Some e \<Rightarrow> (Inl (Lib e), emit (CollectionDelete name ids) st)
      | None \<Rightarrow>
          (Inr (),
           emit (CollectionDelete name ids)
             (changeRows name (filter (\<lambda>old. row_id old \<notin> set ids)) st)))"

section \<open>gemini.ts: the class ChromaVectorDB\<close>

subsection \<open>Promises\<close>

text \<open>
  \<open>xs.map(async x => ...)\<close> starts one task per element. The tasks are modelled as run
  one after the other in list order, each from the state its predecessor left; every
  task runs, whatever the outcome of the others. \<open>Promise.all\<close> then rejects with an
  error of a task that failed, and resolves with all the values when none did.
\<close>

fun mapAsync :: "(state \<Rightarrow> 'a \<Rightarrow> (error + 'b) \<times> state) \<Rightarrow> state \<Rightarrow> 'a list \<Rightarrow> (error + 'b) list \<times> state" where
  "mapAsync task st [] = ([], st)"
| "mapAsync task st (x # xs) =
     (case task st x of
        (r, st1) \<Rightarrow> (case mapAsync task st1 xs of (rs, st2) \<Rightarrow> (r # rs, st2)))"

fun promiseAll :: "(error + 'b) list \<Rightarrow> error + 'b list" where
  "promiseAll [] = Inr []"
| "promiseAll (Inl e # rs) = Inl e"
| "promiseAll (Inr v # rs) = (case promiseAll rs of Inl e \<Rightarrow> Inl e | Inr vs \<Rightarrow> Inr (v # vs))"

subsection \<open>generateEmbedding\<close>

definition generateEmbedding :: "env \<Rightarrow> state \<Rightarrow> ustring \<Rightarrow> embedding result" where
  "generateEmbedding env st text =
     (case embedContent env (events st) text of
        Inl e \<Rightarrow> (Inl EmbeddingFailed, emit (Embed text) st)
      | Inr values \<Rightarrow> (Inr values, emit (Embed text) st))"

subsection \<open>addDocuments\<close>

text \<open>The callback \<open>async doc => ({...doc, embedding: doc.embedding || await ...})\<close>.\<close>

definition withEmbedding :: "env \<Rightarrow> state \<Rightarrow> DocumentData \<Rightarrow> DocumentData result" where
  "withEmbedding env st doc =
     (case doc_embedding doc of
        Some e \<Rightarrow> (Inr doc, st)
      | None \<Rightarrow>
          (case generateEmbedding env st (doc_content doc) of
             (Inl e, st') \<Rightarrow> (Inl e, st')
           | (Inr v, st') \<Rightarrow> (Inr (doc\<lparr>doc_embedding := Some v\<rparr>), st')))"

definition rowOf :: "DocumentData \<Rightarrow> chroma_row" where
  "rowOf doc =
     \<lparr>row_id = doc_id doc,
      row_embedding = doc_embedding doc,
      row_metadata = (case doc_metadata doc of Some m \<Rightarrow> m | None \<Rightarrow> []),
      row_document = doc_content doc\<rparr>"

definition addDocuments :: "env \<Rightarrow> state \<Rightarrow> DocumentData list \<Rightarrow> unit result" where
  "addDocuments env st documents =
     (case collection st of
        None \<Rightarrow> (Inl CollectionNotInitialized, st)
      | Some handle \<Rightarrow>
          (case mapAsync (withEmbedding env) st documents of
             (tasks, st1) \<Rightarrow>
               (case promiseAll tasks of
                  Inl e \<Rightarrow> (Inl e, st1)
                | Inr docsWithEmbeddings \<Rightarrow>
                    chroma_add env st1 handle (map rowOf docsWithEmbeddings))))"

subsection \<open>queryDocuments\<close>

text \<open>\<open>xs[i]\<close>: undefined outside the array.\<close>

definition elemAt :: "'a list \<Rightarrow> nat \<Rightarrow> 'a option" where
  "elemAt xs i = (if i < length xs then Some (xs ! i) else None)"

text \<open>\<open>xs[0]\<close> where a property of the result is read next: that throws on undefined.\<close>

definition firstRow :: "'a list list \<Rightarrow> error + 'a list" where
  "firstRow rows = (case rows of [] \<Rightarrow> Inl TypeError | r # _ \<Rightarrow> Inr r)"

text \<open>
  The callback of \<open>results.ids[0].map\<close>. A null or undefined document becomes the empty
  string; null and undefined are both \<open>None\<close> in the embedding and the metadata.
\<close>

definition resultDocument ::
  "ustring option list list \<Rightarrow> embedding list list \<Rightarrow> DocumentMetadata option list list \<Rightarrow>
   ustring \<times> nat \<Rightarrow> error + DocumentData" where
  "resultDocument documents embeddings metadatas p =
     (case p of (ident, i) \<Rightarrow>
        (case firstRow documents of
           Inl e \<Rightarrow> Inl e
         | Inr ds \<Rightarrow>
             (case firstRow embeddings of
                Inl e \<Rightarrow> Inl e
              | Inr es \<Rightarrow>
                  (case firstRow metadatas of
                     Inl e \<Rightarrow> Inl e
                   | Inr ms \<Rightarrow>
                       Inr \<lparr>doc_id = ident,
                            doc_content = (case elemAt ds i of Some (Some text) \<Rightarrow> text | _ \<Rightarrow> []),
                            doc_embedding = elemAt es i,
                            doc_metadata = (case elemAt ms i of Some m \<Rightarrow> m | None \<Rightarrow> None)\<rparr>))))"

text \<open>\<open>Array.prototype.map\<close> with a callback that may throw.\<close>

fun mapE :: "('a \<Rightarrow> error + 'b) \<Rightarrow> 'a list \<Rightarrow> error + 'b list" where
  "mapE f [] = Inr []"
| "mapE f (x # xs) =
     (case f x of
        Inl e \<Rightarrow> Inl e
      | Inr y \<Rightarrow> (case mapE f xs of Inl e \<Rightarrow> Inl e | Inr ys \<Rightarrow> Inr (y # ys)))"

definition reconstitute :: "QueryResponse \<Rightarrow> error + DocumentData list" where
  "reconstitute results =
     (case (qr_ids results, qr_documents results, qr_embeddings results, qr_metadatas results) of
        (Some ids, Some documents, Some embeddings, Some metadatas) \<Rightarrow>
          (case firstRow ids of
             Inl e \<Rightarrow> Inl e
           | Inr ids0 \<Rightarrow>
               mapE (resultDocument documents embeddings metadatas) (zip ids0 [0 ..< length ids0]))
      | _ \<Rightarrow> Inl InvalidResponseStructure)"

definition includeFields :: "string list" where
  "includeFields = [''documents'', ''metadatas'', ''embeddings'']"

text \<open>The parameter \<open>topK\<close> is optional: \<open>None\<close> is a call that leaves it out.\<close>

definition queryDocuments :: "env \<Rightarrow> state \<Rightarrow> ustring \<Rightarrow> nat option \<Rightarrow> DocumentData list result" where
  "queryDocuments env st queryText topK =
     (case collection st of
        None \<Rightarrow> (Inl CollectionNotInitialized, st)
      | Some handle \<Rightarrow>
          (case generateEmbedding env st queryText of
             (Inl e, st1) \<Rightarrow> (Inl e, st1)
           | (Inr queryEmbedding, st1) \<Rightarrow>
               (case chroma_query env st1 handle [queryEmbedding]
                       (case topK of None \<Rightarrow> 5 | Some k \<Rightarrow> k) includeFields of
                  (Inl e, st2) \<Rightarrow> (Inl e, st2)
                | (Inr results, st2) \<Rightarrow> (reconstitute results, st2))))"

subsection \<open>updateDocument, deleteDocuments\<close>

definition updateDocument :: "env \<Rightarrow> state \<Rightarrow> DocumentData \<Rightarrow> unit result" where
  "updateDocument env st document =
     (case collection st of
        None \<Rightarrow> (Inl CollectionNotInitialized, st)
      | Some handle \<Rightarrow> chroma_update env st handle (rowOf document))"

definition deleteDocuments :: "env \<Rightarrow> state \<Rightarrow> ustring list \<Rightarrow> unit result" where
  "deleteDocuments env st ids =
     (case collection st of
        None \<Rightarrow> (Inl CollectionNotInitialized, st)
      | Some handle \<Rightarrow> chroma_delete env st handle ids)"

subsection \<open>initDBfromCSV\<close>

text \<open>A template literal's rendering of a non-negative array index.\<close>

fun decimal :: "nat \<Rightarrow> ustring" where
  "decimal n = (if n < 10 then [0x30 + of_nat n] else decimal (n div 10) @ [0x30 + of_nat (n mod 10)])"

text \<open>
  getClusteredText is declared to return \<open>TextBlock[]\<close>, and every block it returns has
  passed \<open>blockCheck\<close>, so \<open>chunk.heading\<close> and \<open>chunk.content\<close> are strings. A value of
  another shape is outside the declared type; the model stops there with a TypeError.
\<close>

definition propString :: "json \<Rightarrow> string \<Rightarrow> error + ustring" where
  "propString b key =
     (case b of
        JObj props \<Rightarrow> (case map_of props (ustr key) of Some (JStr s) \<Rightarrow> Inr s | _ \<Rightarrow> Inl TypeError)
      | _ \<Rightarrow> Inl TypeError)"

definition indent :: ustring where
  "indent = replicate 16 0x20"

text \<open>The callback of \<open>splitedArticle.map\<close>.\<close>

definition mkChunk ::
  "env \<Rightarrow> ustring \<Rightarrow> ustring \<Rightarrow> ProcessedArticle \<Rightarrow> state \<Rightarrow> json \<times> nat \<Rightarrow> DocumentData result" where
  "mkChunk env URL' Source' scrapedArticle st p =
     (case p of (chunk, i) \<Rightarrow>
        (let uuid = uuidv4 env (events st); st1 = emit Uuid st in
         case propString chunk ''heading'' of
           Inl e \<Rightarrow> (Inl e, st1)
         | Inr heading \<Rightarrow>
             (case propString chunk ''content'' of
                Inl e \<Rightarrow> (Inl e, st1)
              | Inr content \<Rightarrow>
                  (Inr \<lparr>doc_id = URL' @ ustr ''-'' @ uuid @ ustr ''-'' @ decimal i,
                        doc_content =
                          newline @ indent @ ustr ''#'' @ heading @ newline @
                          newline @ indent @ content @ newline @
                          newline @ indent @ ustr ''Publication date:'' @
                            (case pa_time scrapedArticle of None \<Rightarrow> ustr ''null'' | Some t \<Rightarrow> t) @
                          newline @ indent @ ustr ''url:'' @ URL' @ newline @
                          newline @ indent,
                        doc_embedding = None,
                        doc_metadata = Some
                          [(ustr ''category'', MString (ustr ''article'')),
                           (ustr ''title'', MString (pa_title scrapedArticle)),
                           (ustr ''chunkTitle'', MString heading),
                           (ustr ''time'', MString
                              (case pa_time scrapedArticle of
                                 None \<Rightarrow> ustr ''unknown''
                               | Some t \<Rightarrow> if t = [] then ustr ''unknown'' else t)),
                           (ustr ''url'', MString URL'),
                           (ustr ''source'', MString Source')]\<rparr>,
                   st1))))"

text \<open>\<open>Array.prototype.map\<close> with a callback that changes the state and may throw.\<close>

fun mapES :: "(state \<Rightarrow> 'a \<Rightarrow> (error + 'b) \<times> state) \<Rightarrow> state \<Rightarrow> 'a list \<Rightarrow> (error + 'b list) \<times> state" where
  "mapES f st [] = (Inr [], st)"
| "mapES f st (x # xs) =
     (case f st x of
        (Inl e, st1) \<Rightarrow> (Inl e, st1)
      | (Inr y, st1) \<Rightarrow>
          (case mapES f st1 xs of
             (Inl e, st2) \<Rightarrow> (Inl e, st2)
           | (Inr ys, st2) \<Rightarrow> (Inr (y # ys), st2)))"

text \<open>The body of the \<open>try\<close> block of the callback of \<open>batch.map\<close>.\<close>

definition ingestBody :: "env \<Rightarrow> state \<Rightarrow> Article \<Rightarrow> unit result" where
  "ingestBody env st article =
     (case scrapeArticle env st (URL article) of
        (Inl e, st1) \<Rightarrow> (Inl e, st1)
      | (Inr scrapedArticle, st1) \<Rightarrow>
          (case getClusteredText env st1 (pa_content scrapedArticle) of
             (Inl e, st2) \<Rightarrow> (Inl e, st2)
           | (Inr splitedArticle, st2) \<Rightarrow>
               (case mapES (mkChunk env (URL article) (Source article) scrapedArticle) st2
                       (zip splitedArticle [0 ..< length splitedArticle]) of
                  (Inl e, st3) \<Rightarrow> (Inl e, st3)
                | (Inr chunks, st3) \<Rightarrow> addDocuments env st3 chunks)))"

text \<open>The callback of \<open>batch.map\<close>: the body, and the \<open>catch\<close> that records the error.\<close>

definition ingestArticle :: "env \<Rightarrow> state \<Rightarrow> Article \<Rightarrow> IngestResult result" where
  "ingestArticle env st article =
     (case ingestBody env st article of
        (Inr done, st') \<Rightarrow> (Inr \<lparr>success = True, url = URL article, error = None\<rparr>, st')
      | (Inl e, st') \<Rightarrow> (Inr \<lparr>success = False, url = URL article, error = Some e\<rparr>, st'))"

definition BATCH_SIZE :: nat where
  "BATCH_SIZE = 5"

text \<open>\<open>xs.slice(i, j)\<close> for \<open>0 \<le> i \<le> j\<close>.\<close>

definition slice :: "nat \<Rightarrow> nat \<Rightarrow> 'a list \<Rightarrow> 'a list" where
  "slice i j xs = take (j - i) (drop i xs)"

function batchLoop ::
  "env \<Rightarrow> state \<Rightarrow> Article list \<Rightarrow> nat \<Rightarrow> IngestResult list \<Rightarrow> IngestResult list result" where
  "batchLoop env st dataCSV i results =
     (if i < length dataCSV
      then (case mapAsync (ingestArticle env) st (slice i (i + BATCH_SIZE) dataCSV) of
              (tasks, st') \<Rightarrow>
                (case promiseAll tasks of
                   Inl e \<Rightarrow> (Inl e, st')
                 | Inr batchResults \<Rightarrow>
                     batchLoop env st' dataCSV (i + BATCH_SIZE) (results @ batchResults)))
      else (Inr results, st))"
  by pat_completeness auto
termination
  by (relation "measure (\<lambda>(env, st, dataCSV, i, results). length dataCSV - i)")
     (auto simp: BATCH_SIZE_def)

definition initDBfromCSV :: "env \<Rightarrow> state \<Rightarrow> ustring \<Rightarrow> IngestResult list result" where
  "initDBfromCSV env st file =
     (case readCSV env st file of
        (Inl e, st1) \<Rightarrow> (Inl e, st1)
      | (Inr dataCSV, st1) \<Rightarrow> batchLoop env st1 dataCSV 0 [])"

subsection \<open>initializeCollection\<close>

definition initializeCollection :: "env \<Rightarrow> state \<Rightarrow> ustring \<Rightarrow> unit result" where
  "initializeCollection env st collectionName =
     (case client_getOrCreateCollection env st collectionName cosineSpace of
        (Inl e, st1) \<Rightarrow> (Inl e, st1)
      | (Inr handle, st1) \<Rightarrow>
          (case client_countCollections env (st1\<lparr>collection := Some handle\<rparr>) of
             (Inl e, st2) \<Rightarrow> (Inl e, st2)
           | (Inr collectionCount, st2) \<Rightarrow>
               if collectionCount = 0
               then (case initDBfromCSV env st2 (csvFile st2) of
                       (Inl e, st3) \<Rightarrow> (Inl e, st3)
                     | (Inr results, st3) \<Rightarrow> (Inr (), st3))
               else (Inr (), st2)))"

section \<open>gemini.ts: the context of the /agent handler\<close>

text \<open>
  A match of \<open>/(https?:\/\/[^\s]+)/\<close> that starts at the head of the string: the
  scheme, then the longest non-empty run of characters that are not white space.
\<close>

definition urlAt :: "ustring \<Rightarrow> ustring option" where
  "urlAt s =
     (case (if prefix (ustr ''https://'') s then Some (ustr ''https://'')
            else if prefix (ustr ''http://'') s then Some (ustr ''http://'')
            else None) of
        None \<Rightarrow> None
      | Some scheme \<Rightarrow>
          (case takeWhile (\<lambda>c. \<not> isWhiteSpace c) (drop (length scheme) s) of
             [] \<Rightarrow> None
           | c # cs \<Rightarrow> Some (scheme @ c # cs)))"

text \<open>
  All matches of the global regular expression, from left to right: the search resumes
  where the previous match ended.
\<close>

function urlMatches :: "ustring \<Rightarrow> ustring list" where
  "urlMatches [] = []"
| "urlMatches (c # cs) =
     (case urlAt (c # cs) of
        Some m \<Rightarrow> m # urlMatches (drop (length m) (c # cs))
      | None \<Rightarrow> urlMatches cs)"
  by pat_completeness auto
termination
  by (relation "measure length") (auto simp: urlAt_def split: if_splits list.splits)

text \<open>\<open>query.match(urlRegex)\<close>: null when nothing matches.\<close>

definition queryMatch :: "ustring \<Rightarrow> ustring list option" where
  "queryMatch query = (case urlMatches query of [] \<Rightarrow> None | m # ms \<Rightarrow> Some (m # ms))"

text \<open>
  Lines 64 to 76 of the handler of \<open>POST /agent\<close>: the computation of \<open>context\<close> from
  the query string of the request.
\<close>

definition agentContext :: "env \<Rightarrow> state \<Rightarrow> ustring \<Rightarrow> ustring result" where
  "agentContext env st query =
     (case queryMatch query of
        Some (u # us) \<Rightarrow>
          (case scrapeArticle env st u of
             (Inl e, st') \<Rightarrow> (Inl e, st')
           | (Inr articleData, st') \<Rightarrow> (Inr (pa_content articleData), st'))
      | _ \<Rightarrow>
          (case queryDocuments env st query (Some 7) of
             (Inl e, st') \<Rightarrow> (Inl e, st')
           | (Inr chunks, st') \<Rightarrow>
               (Inr (join (newline @ newline @ newline) (map doc_content chunks)), st')))"

section \<open>Auxiliary definitions\<close>

text \<open>
  The state of the index after a successful \<open>getOrCreateCollection\<close> for the
  program's collection (created with the cosine space when it did not exist).
\<close>

definition opened :: "ustring \<Rightarrow> state \<Rightarrow> state" where
  "opened name st =
     (case map_of (index st) name of
        Some c \<Rightarrow> st
      | None \<Rightarrow> st\<lparr>index := index st @ [(name, \<lparr>col_metadata = cosineSpace, col_rows = []\<rparr>)]\<rparr>)"

section \<open>A sample world\<close>

text \<open>
  A concrete world on which the theorems below are instantiated: every page loads but
  \<open>http://down\<close>, the generative model answers with one fenced JSON block of 100
  characters of content, and the index answers a query with the first rows of the
  collection.
\<close>

definition demoAnswer :: ustring where
  "demoAnswer = ustr ''[{\"heading\":\"H\",\"content\":\"'' @ replicate 100 0x61 @ ustr ''\"}]''"

definition demoBlock :: json where
  "demoBlock = JObj [(ustr ''heading'', JStr (ustr ''H'')), (ustr ''content'', JStr (replicate 100 0x61))]"

definition demoPage :: page where
  "demoPage =
     \<lparr>h1_text = ustr '' News '', time_text = [],
      body_elements = [(H2, ustr ''Intro''), (P, ustr '' text '')]\<rparr>"

definition demoEnv :: env where
  "demoEnv =
     \<lparr>axios_get = (\<lambda>h u. if u = ustr ''http://down'' then Inl NetworkError else Inr (ustr ''<html>'')),
      cheerio_load = (\<lambda>d. Inr demoPage),
      generateContentStream =
        (\<lambda>h p. ([fence @ ustr ''json'' @ newline, demoAnswer, newline @ fence], None)),
      JSON_parse = (\<lambda>s. if s = demoAnswer then Inr (JArr [demoBlock]) else Inl SyntaxError),
      embedContent = (\<lambda>h t. Inr [1, 0]),
      csv_rows = (\<lambda>h f. Inr []),
      uuidv4 = (\<lambda>h. decimal (length h)),
      index_fault = (\<lambda>h. None),
      index_nearest = (\<lambda>h rows q n.
         \<lparr>qr_ids = Some [map row_id (take n rows)],
          qr_documents = Some [map (\<lambda>r. Some (row_document r)) (take n rows)],
          qr_embeddings = Some [map (\<lambda>r. case row_embedding r of Some e \<Rightarrow> e | None \<Rightarrow> []) (take n rows)],
          qr_metadatas = Some [map (\<lambda>r. Some (row_metadata r)) (take n rows)]\<rparr>)\<rparr>"

definition demoText :: ustring where
  "demoText = ustr ''He said \"x\"''"

definition demoState :: state where
  "demoState = \<lparr>events = [], index = [], collection = None, csvFile = ustr ''articles_dataset.csv''\<rparr>"

definition flakyEnv :: env where
  "flakyEnv = demoEnv\<lparr>embedContent := (\<lambda>h t. if t = ustr ''bad'' then Inl ProviderError else Inr [1, 0])\<rparr>"

definition readyState :: state where
  "readyState =
     demoState\<lparr>index := [(ustr ''test_rag'', \<lparr>col_metadata = cosineSpace, col_rows = []\<rparr>)],
               collection := Some (ustr ''test_rag'')\<rparr>"

definition goodDoc :: DocumentData where
  "goodDoc = \<lparr>doc_id = ustr ''a'', doc_content = ustr ''good'', doc_embedding = None, doc_metadata = None\<rparr>"

definition badDoc :: DocumentData where
  "badDoc = \<lparr>doc_id = ustr ''b'', doc_content = ustr ''bad'', doc_embedding = None, doc_metadata = None\<rparr>"

definition readyDoc :: DocumentData where
  "readyDoc = \<lparr>doc_id = ustr ''c'', doc_content = ustr ''bad'', doc_embedding = Some [0, 1], doc_metadata = None\<rparr>"

text \<open>A world in which the second call to the index fails.\<close>

definition halfwayEnv :: env where
  "halfwayEnv = demoEnv\<lparr>index_fault := (\<lambda>h. if length h = 1 then Some IndexUnavailable else None)\<rparr>"

text \<open>A response with a null document text, and one that has no row of embeddings.\<close>

definition nullDocResponse :: QueryResponse where
  "nullDocResponse =
     \<lparr>qr_ids = Some [[ustr ''a'', ustr ''b'']],
      qr_documents = Some [[Some (ustr ''text''), None]],
      qr_embeddings = Some [[[1, 0]]],
      qr_metadatas = Some [[None, None]]\<rparr>"

definition raggedResponse :: QueryResponse where
  "raggedResponse =
     \<lparr>qr_ids = Some [[ustr ''a'']],
      qr_documents = Some [[None]],
      qr_embeddings = Some [],
      qr_metadatas = Some [[None]]\<rparr>"

definition raggedEnv :: env where
  "raggedEnv = demoEnv\<lparr>index_nearest := (\<lambda>h rows q n. raggedResponse)\<rparr>"

definition libraryState :: state where
  "libraryState =
     demoState\<lparr>index := [(ustr ''test_rag'',
                  \<lparr>col_metadata = cosineSpace,
                   col_rows = [\<lparr>row_id = ustr ''a'', row_embedding = Some [1, 0],
                                row_metadata = [(ustr ''url'', MString (ustr ''http://a''))],
                                row_document = ustr ''first''\<rparr>,
                               \<lparr>row_id = ustr ''b'', row_embedding = Some [0, 1],
                                row_metadata = [], row_document = ustr ''second''\<rparr>]\<rparr>)],
               collection := Some (ustr ''test_rag'')\<rparr>"



text \<open>Two queries, one with a link in it and one without.\<close>

definition linkQuery :: ustring where
  "linkQuery = ustr ''summarize https://example.com/a''"

definition plainQuery :: ustring where
  "plainQuery = ustr ''what happened in city X''"

section \<open>Properties of scrapeArticle\<close>

lemma scrapeArticle_total: "\<exists>a. fst (scrapeArticle env st u) = Inr a"
  by (simp add: scrapeArticle_def split: prod.splits sum.splits)

lemma scrapeArticle_state: "snd (scrapeArticle env st u) = emit (HttpGet u) st"
  by (simp add: scrapeArticle_def scrapeBody_def split: prod.splits sum.splits)

text \<open>
  C8. When the fetch of a URL fails (the request fails, by a network error or a timeout,
  or the page cannot be parsed), scrapeArticle returns the sentinel article with title
  "Can not load information", empty content, the URL and no time; it returns it as a
  value, so the error does not reach the caller.
\<close>

theorem scrapeArticle_sentinel:
  assumes "axios_get env (events st) u = Inl e
           \<or> (axios_get env (events st) u = Inr data \<and> cheerio_load env data = Inl e)"
  shows "fst (scrapeArticle env st u) =
           Inr \<lparr>pa_title = ustr ''Can not load information'', pa_content = [],
                pa_url = u, pa_time = None\<rparr>"
  using assms by (auto simp: scrapeArticle_def scrapeBody_def sentinel_def)

theorem scrapeArticle_sentinel_witness:
  "axios_get demoEnv (events demoState) (ustr ''http://down'') = Inl NetworkError
   \<and> fst (scrapeArticle demoEnv demoState (ustr ''http://down'')) =
       Inr \<lparr>pa_title = ustr ''Can not load information'', pa_content = [],
            pa_url = ustr ''http://down'', pa_time = None\<rparr>"
proof -
  have fails: "axios_get demoEnv (events demoState) (ustr ''http://down'') = Inl NetworkError"
    by (simp add: demoEnv_def)
  then show ?thesis
    using scrapeArticle_sentinel [of demoEnv demoState "ustr ''http://down''" NetworkError]
    by simp
qed

section \<open>Properties of getClusteredText\<close>

lemma every_blockCheck:
  "every blockCheck bs = Inr True \<Longrightarrow>
   \<forall>b \<in> set bs. \<exists>props h c. b = JObj props
      \<and> map_of props (ustr ''heading'') = Some (JStr h)
      \<and> map_of props (ustr ''content'') = Some (JStr c) \<and> 100 \<le> length c"
proof (induction bs)
  case Nil
  then show ?case by simp
next
  case (Cons b bs)
  from Cons.prems have ok: "blockCheck b = Inr True" and rest: "every blockCheck bs = Inr True"
    by (auto split: sum.splits if_splits)
  from ok have "\<exists>props h c. b = JObj props
      \<and> map_of props (ustr ''heading'') = Some (JStr h)
      \<and> map_of props (ustr ''content'') = Some (JStr c) \<and> 100 \<le> length c"
    by (cases b) (auto simp: MIN_CONTENT_LENGTH_def split: option.splits json.splits)
  with Cons.IH[OF rest] show ?case by simp
qed

text \<open>
  The blocks that pass the check are those from which initDBfromCSV can read both
  strings: the TypeError of \<open>propString\<close> is not reached on them.
\<close>

lemma validated_blocks_have_strings:
  assumes "every blockCheck bs = Inr True" "b \<in> set bs"
  shows "\<exists>h c. propString b ''heading'' = Inr h \<and> propString b ''content'' = Inr c"
proof -
  from every_blockCheck[OF assms(1)] assms(2) obtain props h c where
    "b = JObj props" "map_of props (ustr ''heading'') = Some (JStr h)"
    "map_of props (ustr ''content'') = Some (JStr c)" by blast
  then show ?thesis by (simp add: propString_def)
qed

lemma clusterAttempt_state: "snd (clusterAttempt env st prompt) = emit (Generate prompt) st"
  by (simp add: clusterAttempt_def generateResponse_def generateStreamingResponse_def
      split: prod.splits sum.splits option.splits json.splits)

lemma clusterAttempt_valid:
  "clusterAttempt env st prompt = (Inr bs, st') \<Longrightarrow> every blockCheck bs = Inr True"
  by (auto simp: clusterAttempt_def split: prod.splits sum.splits json.splits if_splits)


lemma getClusteredText_once:
  "getClusteredText env st text =
     (case clusterAttempt env st (clusterPrompt (sanitize text)) of
        (Inr parsed, st') \<Rightarrow> (Inr parsed, st')
      | (Inl e, st') \<Rightarrow> (Inr [], st'))"
  by (simp add: getClusteredText_def clusterLoop.simps MAX_RETRIES_def split: prod.splits sum.splits)

lemma demo_getClusteredText:
  "fst (getClusteredText demoEnv demoState demoText) = Inr [demoBlock]"
  by code_simp

text \<open>
  C5. getClusteredText never throws. What it returns is either the array parsed in the
  attempt, every element of which is an object with a string heading and a string
  content of at least 100 code units, or the empty sequence after the attempt failed;
  it makes at most MAX_RETRIES attempts, which is exactly one.
\<close>

theorem getClusteredText_valid:
  "\<exists>blocks st'. getClusteredText env st text = (Inr blocks, st')
     \<and> (\<forall>b \<in> set blocks. \<exists>props h c. b = JObj props
           \<and> map_of props (ustr ''heading'') = Some (JStr h)
           \<and> map_of props (ustr ''content'') = Some (JStr c) \<and> 100 \<le> length c)
     \<and> (fst (clusterAttempt env st (clusterPrompt (sanitize text))) = Inr blocks
         \<or> (isl (fst (clusterAttempt env st (clusterPrompt (sanitize text)))) \<and> blocks = []))
     \<and> (\<exists>n \<le> MAX_RETRIES. events st' = events st @ replicate n (Generate (clusterPrompt (sanitize text))))
     \<and> MAX_RETRIES = 1
     \<and> events st' = events st @ [Generate (clusterPrompt (sanitize text))]"
proof -
  let ?p = "clusterPrompt (sanitize text)"
  obtain r st1 where att: "clusterAttempt env st ?p = (r, st1)"
    by (cases "clusterAttempt env st ?p")
  have st1: "st1 = emit (Generate ?p) st"
    using clusterAttempt_state[of env st ?p] att by simp
  have ev: "events st1 = events st @ [Generate ?p]" by (simp add: st1 emit_def)
  have bound: "\<exists>n \<le> MAX_RETRIES. events st1 = events st @ replicate n (Generate ?p)"
    using ev by (intro exI[of _ 1]) (simp add: MAX_RETRIES_def)
  show ?thesis
  proof (cases r)
    case (Inr bs)
    have res: "getClusteredText env st text = (Inr bs, st1)"
      using att Inr by (simp add: getClusteredText_once)
    have "every blockCheck bs = Inr True" using clusterAttempt_valid att Inr by blast
    then have valid: "\<forall>b \<in> set bs. \<exists>props h c. b = JObj props
           \<and> map_of props (ustr ''heading'') = Some (JStr h)
           \<and> map_of props (ustr ''content'') = Some (JStr c) \<and> 100 \<le> length c"
      by (rule every_blockCheck)
    have "fst (clusterAttempt env st ?p) = Inr bs" using att Inr by simp
    with res valid bound ev show ?thesis by (simp add: MAX_RETRIES_def)
  next
    case (Inl e)
    have res: "getClusteredText env st text = (Inr [], st1)"
      using att Inl by (simp add: getClusteredText_once)
    have "isl (fst (clusterAttempt env st ?p))" using att Inl by simp
    with res bound ev show ?thesis by (simp add: MAX_RETRIES_def)
  qed
qed

theorem getClusteredText_valid_witness:
  "fst (getClusteredText demoEnv demoState demoText) = Inr [demoBlock]
   \<and> (\<exists>props h c. demoBlock = JObj props
         \<and> map_of props (ustr ''heading'') = Some (JStr h)
         \<and> map_of props (ustr ''content'') = Some (JStr c) \<and> 100 \<le> length c)"
proof -
  from getClusteredText_valid [of demoEnv demoState demoText]
  obtain blocks st' where
    r: "getClusteredText demoEnv demoState demoText = (Inr blocks, st')" and
    v: "\<forall>b \<in> set blocks. \<exists>props h c. b = JObj props
           \<and> map_of props (ustr ''heading'') = Some (JStr h)
           \<and> map_of props (ustr ''content'') = Some (JStr c) \<and> 100 \<le> length c"
    by blast
  from r demo_getClusteredText have "blocks = [demoBlock]" by simp
  with v show ?thesis using demo_getClusteredText by simp
qed

section \<open>Tasks and promises\<close>

lemma mapAsync_Cons_fst:
  "fst (mapAsync f st (x # xs)) = fst (f st x) # fst (mapAsync f (snd (f st x)) xs)"
  by (simp add: case_prod_beta)

lemma mapAsync_Cons_snd:
  "snd (mapAsync f st (x # xs)) = snd (mapAsync f (snd (f st x)) xs)"
  by (simp add: case_prod_beta)


lemma mapAsync_append_fst:
  "fst (mapAsync f st (xs @ ys)) = fst (mapAsync f st xs) @ fst (mapAsync f (snd (mapAsync f st xs)) ys)"
  by (induction xs arbitrary: st)
     (simp_all add: mapAsync_Cons_fst mapAsync_Cons_snd del: mapAsync.simps(2))



lemma promiseAll_Inl:
  "Inl e \<in> set rs \<Longrightarrow> \<exists>e'. promiseAll rs = Inl e' \<and> Inl e' \<in> set rs"
proof (induction rs)
  case Nil
  then show ?case by simp
next
  case (Cons r rs)
  show ?case
  proof (cases r)
    case (Inl a)
    then show ?thesis by auto
  next
    case (Inr v)
    with Cons.prems have "Inl e \<in> set rs" by auto
    from Cons.IH[OF this] Inr show ?thesis by auto
  qed
qed


section \<open>Properties of addDocuments\<close>

lemma generateEmbedding_frame:
  "generateEmbedding env st text =
     ((case embedContent env (events st) text of Inl e \<Rightarrow> Inl EmbeddingFailed | Inr v \<Rightarrow> Inr v),
      emit (Embed text) st)"
  by (simp add: generateEmbedding_def split: sum.splits)

lemma withEmbedding_frame:
  assumes "withEmbedding env st d = (r, st')"
  shows "index st' = index st \<and> collection st' = collection st \<and> csvFile st' = csvFile st
         \<and> (\<exists>texts. events st' = events st @ map Embed texts)
         \<and> (isl r \<longrightarrow> r = Inl EmbeddingFailed)"
proof (cases "doc_embedding d")
  case (Some v)
  with assms have "st' = st" "r = Inr d" by (auto simp: withEmbedding_def)
  then show ?thesis by (auto intro: exI[of _ "[]"])
next
  case None
  with assms have st': "st' = emit (Embed (doc_content d)) st" and r: "isl r \<longrightarrow> r = Inl EmbeddingFailed"
    by (auto simp: withEmbedding_def generateEmbedding_frame split: sum.splits)
  have "events st' = events st @ map Embed [doc_content d]" by (simp add: st' emit_def)
  then have "\<exists>texts. events st' = events st @ map Embed texts" by blast
  with r show ?thesis by (simp add: st' emit_def)
qed

lemma mapAsync_withEmbedding_frame:
  assumes "mapAsync (withEmbedding env) st ds = (rs, st')"
  shows "index st' = index st \<and> collection st' = collection st \<and> csvFile st' = csvFile st
         \<and> (\<exists>texts. events st' = events st @ map Embed texts)
         \<and> (\<forall>r \<in> set rs. isl r \<longrightarrow> r = Inl EmbeddingFailed)"
  using assms
proof (induction ds arbitrary: st rs st')
  case Nil
  then show ?case by (auto intro: exI[of _ "[]"])
next
  case (Cons d ds)
  obtain r st1 where h: "withEmbedding env st d = (r, st1)" by (cases "withEmbedding env st d")
  obtain rs1 st2 where t: "mapAsync (withEmbedding env) st1 ds = (rs1, st2)"
    by (cases "mapAsync (withEmbedding env) st1 ds")
  from Cons.prems h t have eq: "rs = r # rs1" "st' = st2" by auto
  from withEmbedding_frame[OF h] obtain ts1 where
    a: "index st1 = index st" "collection st1 = collection st" "csvFile st1 = csvFile st"
       "events st1 = events st @ map Embed ts1" "isl r \<longrightarrow> r = Inl EmbeddingFailed" by blast
  from Cons.IH[OF t] obtain ts2 where
    b: "index st2 = index st1" "collection st2 = collection st1" "csvFile st2 = csvFile st1"
       "events st2 = events st1 @ map Embed ts2" "\<forall>r \<in> set rs1. isl r \<longrightarrow> r = Inl EmbeddingFailed" by blast
  have "events st2 = events st @ map Embed (ts1 @ ts2)" using a(4) b(4) by simp
  then have "\<exists>texts. events st2 = events st @ map Embed texts" by blast
  with a b eq show ?case by simp
qed

text \<open>
  C3. When the collection is initialized and the embedding provider fails for a document
  of the batch that has no embedding of its own (at the moment it is asked, that is
  after the requests for the documents before it), addDocuments throws the embedding
  error, the index holds what it held before, and the only calls made were embedding
  requests: the batch write was never issued.
\<close>

theorem addDocuments_embedding_failure:
  assumes "collection st = Some handle"
      and "doc_embedding d = None"
      and "embedContent env (events (snd (mapAsync (withEmbedding env) st pre))) (doc_content d) = Inl e"
  shows "\<exists>st' texts. addDocuments env st (pre @ d # post) = (Inl EmbeddingFailed, st')
           \<and> index st' = index st
           \<and> events st' = events st @ map Embed texts"
proof -
  let ?f = "withEmbedding env"
  obtain rs st1 where m: "mapAsync ?f st (pre @ d # post) = (rs, st1)"
    by (cases "mapAsync ?f st (pre @ d # post)")
  let ?s = "snd (mapAsync ?f st pre)"
  have "fst (?f ?s d) = Inl EmbeddingFailed"
    using assms(2,3) by (simp add: withEmbedding_def generateEmbedding_frame)
  then have "Inl EmbeddingFailed \<in> set (fst (mapAsync ?f st (pre @ d # post)))"
    by (simp add: mapAsync_append_fst mapAsync_Cons_fst del: mapAsync.simps(2))
  with m have mem: "Inl EmbeddingFailed \<in> set rs" by simp
  from promiseAll_Inl[OF mem] obtain e' where p: "promiseAll rs = Inl e'" "Inl e' \<in> set rs" by blast
  from mapAsync_withEmbedding_frame[OF m] obtain texts where
    fr: "index st1 = index st" "events st1 = events st @ map Embed texts"
        "\<forall>r \<in> set rs. isl r \<longrightarrow> r = Inl EmbeddingFailed" by blast
  from fr(3) p(2) have "e' = EmbeddingFailed" by auto
  with p(1) m assms(1) have "addDocuments env st (pre @ d # post) = (Inl EmbeddingFailed, st1)"
    by (simp add: addDocuments_def)
  with fr show ?thesis by blast
qed

theorem addDocuments_embedding_failure_witness:
  "collection readyState = Some (ustr ''test_rag'')
   \<and> doc_embedding badDoc = None
   \<and> (\<exists>st' texts. addDocuments flakyEnv readyState [goodDoc, badDoc, readyDoc] = (Inl EmbeddingFailed, st')
          \<and> index st' = index readyState
          \<and> events st' = events readyState @ map Embed texts)"
proof -
  have c: "collection readyState = Some (ustr ''test_rag'')"
    by (simp add: readyState_def demoState_def)
  have d: "doc_embedding badDoc = None" by (simp add: badDoc_def)
  have f: "embedContent flakyEnv (events (snd (mapAsync (withEmbedding flakyEnv) readyState [goodDoc])))
             (doc_content badDoc) = Inl ProviderError"
    by (simp add: flakyEnv_def demoEnv_def badDoc_def)
  from addDocuments_embedding_failure [OF c d f, of "[readyDoc]"] c d show ?thesis by simp
qed

section \<open>The guard of the store operations\<close>

text \<open>A call of initializeCollection that fails in getOrCreateCollection stores no handle.\<close>

lemma initializeCollection_no_handle:
  "index_fault env (events st) = Some e \<Longrightarrow>
   fst (initializeCollection env st name) = Inl (Lib e)
   \<and> collection (snd (initializeCollection env st name)) = collection st"
  by (simp add: initializeCollection_def client_getOrCreateCollection_def emit_def)

text \<open>
  C7, as amended. While the field \<open>collection\<close> is null, that is until a call of
  initializeCollection has obtained a handle from getOrCreateCollection, each of
  addDocuments, queryDocuments, updateDocument and deleteDocuments throws
  'Collection is not initialized', an error that is none of the library (transport)
  errors nor any other error of the store, and leaves the state as it was: neither the
  embedding provider nor the index was called.
\<close>

theorem uninitialized_guard:
  assumes "collection st = None"
  shows "addDocuments env st documents = (Inl CollectionNotInitialized, st)
       \<and> queryDocuments env st queryText topK = (Inl CollectionNotInitialized, st)
       \<and> updateDocument env st document = (Inl CollectionNotInitialized, st)
       \<and> deleteDocuments env st ids = (Inl CollectionNotInitialized, st)
       \<and> (\<forall>e. CollectionNotInitialized \<noteq> Lib e)
       \<and> CollectionNotInitialized \<notin> {EmbeddingFailed, InvalidResponseStructure, TypeError}"
  using assms
  by (simp add: addDocuments_def queryDocuments_def updateDocument_def deleteDocuments_def)

theorem uninitialized_guard_witness:
  "collection demoState = None
   \<and> addDocuments demoEnv demoState [goodDoc] = (Inl CollectionNotInitialized, demoState)
   \<and> queryDocuments demoEnv demoState (ustr ''q'') None = (Inl CollectionNotInitialized, demoState)
   \<and> updateDocument demoEnv demoState goodDoc = (Inl CollectionNotInitialized, demoState)
   \<and> deleteDocuments demoEnv demoState [ustr ''a''] = (Inl CollectionNotInitialized, demoState)"
proof -
  have c: "collection demoState = None" by (simp add: demoState_def)
  from uninitialized_guard [OF c, of demoEnv "[goodDoc]" "ustr ''q''" None goodDoc "[ustr ''a'']"] c
  show ?thesis by simp
qed

text \<open>
  The claim as stated fails: a call of initializeCollection that obtains the handle and
  then fails in countCollections has not succeeded, yet it leaves the handle set, and
  deleteDocuments then passes the guard and calls the index.
\<close>

theorem uninitialized_guard_counterexample:
  "collection demoState = None
   \<and> fst (initializeCollection halfwayEnv demoState (ustr ''test_rag'')) = Inl (Lib IndexUnavailable)
   \<and> deleteDocuments halfwayEnv (snd (initializeCollection halfwayEnv demoState (ustr ''test_rag''))) [ustr ''a'']
       \<noteq> (Inl CollectionNotInitialized, snd (initializeCollection halfwayEnv demoState (ustr ''test_rag'')))
   \<and> fst (deleteDocuments halfwayEnv (snd (initializeCollection halfwayEnv demoState (ustr ''test_rag''))) [ustr ''a''])
       = Inr ()
   \<and> last (events (snd (deleteDocuments halfwayEnv
         (snd (initializeCollection halfwayEnv demoState (ustr ''test_rag''))) [ustr ''a''])))
       = CollectionDelete (ustr ''test_rag'') [ustr ''a'']"
  by code_simp

section \<open>Properties of queryDocuments\<close>

lemma mapE_total:
  assumes "\<forall>x \<in> set xs. \<exists>y. f x = Inr y"
  shows "\<exists>ys. mapE f xs = Inr ys \<and> length ys = length xs
           \<and> (\<forall>i < length xs. f (xs ! i) = Inr (ys ! i))"
  using assms
proof (induction xs)
  case Nil
  then show ?case by simp
next
  case (Cons x xs)
  from Cons.prems obtain y where y: "f x = Inr y" by auto
  from Cons.prems have "\<forall>x \<in> set xs. \<exists>y. f x = Inr y" by simp
  from Cons.IH[OF this] obtain ys where
    ys: "mapE f xs = Inr ys" "length ys = length xs" "\<forall>i < length xs. f (xs ! i) = Inr (ys ! i)"
    by blast
  have "\<forall>i < length (x # xs). f ((x # xs) ! i) = Inr ((y # ys) ! i)"
    using y ys(3) by (auto simp: nth_Cons split: nat.splits)
  with y ys(1,2) show ?case by simp
qed

lemma reconstitute_missing:
  "qr_ids r = None \<or> qr_documents r = None \<or> qr_embeddings r = None \<or> qr_metadatas r = None
   \<Longrightarrow> reconstitute r = Inl InvalidResponseStructure"
  by (auto simp: reconstitute_def split: option.splits)

lemma reconstitute_rows:
  assumes "qr_ids r = Some (ids0 # ids)" "qr_documents r = Some dss"
          "qr_embeddings r = Some ess" "qr_metadatas r = Some mss"
      and "ids0 = [] \<or> (dss \<noteq> [] \<and> ess \<noteq> [] \<and> mss \<noteq> [])"
  shows "\<exists>docs. reconstitute r = Inr docs \<and> length docs = length ids0
           \<and> (\<forall>i < length ids0.
                 docs ! i =
                   \<lparr>doc_id = ids0 ! i,
                    doc_content = (case elemAt (hd dss) i of Some (Some text) \<Rightarrow> text | _ \<Rightarrow> []),
                    doc_embedding = elemAt (hd ess) i,
                    doc_metadata = (case elemAt (hd mss) i of Some m \<Rightarrow> m | None \<Rightarrow> None)\<rparr>)"
proof (cases "ids0 = []")
  case True
  with assms(1-4) show ?thesis by (simp add: reconstitute_def firstRow_def)
next
  case False
  with assms(5) obtain ds dss' es ess' ms mss' where
    rows: "dss = ds # dss'" "ess = es # ess'" "mss = ms # mss'"
    by (cases dss; cases ess; cases mss) auto
  let ?f = "resultDocument dss ess mss"
  let ?xs = "zip ids0 [0 ..< length ids0]"
  have tot: "\<forall>x \<in> set ?xs. \<exists>y. ?f x = Inr y"
    by (auto simp: resultDocument_def firstRow_def rows)
  from mapE_total[OF tot] obtain docs where
    d: "mapE ?f ?xs = Inr docs" "length docs = length ?xs"
       "\<forall>i < length ?xs. ?f (?xs ! i) = Inr (docs ! i)" by blast
  have "reconstitute r = Inr docs"
    using assms(1-4) d(1) by (simp add: reconstitute_def firstRow_def)
  moreover have "length docs = length ids0" using d(2) by simp
  moreover have "\<forall>i < length ids0.
                 docs ! i =
                   \<lparr>doc_id = ids0 ! i,
                    doc_content = (case elemAt (hd dss) i of Some (Some text) \<Rightarrow> text | _ \<Rightarrow> []),
                    doc_embedding = elemAt (hd ess) i,
                    doc_metadata = (case elemAt (hd mss) i of Some m \<Rightarrow> m | None \<Rightarrow> None)\<rparr>"
  proof (intro allI impI)
    fix i assume i: "i < length ids0"
    then have "?f (?xs ! i) = Inr (docs ! i)" using d(3) by simp
    moreover have "?xs ! i = (ids0 ! i, i)" using i by simp
    ultimately show "docs ! i =
                   \<lparr>doc_id = ids0 ! i,
                    doc_content = (case elemAt (hd dss) i of Some (Some text) \<Rightarrow> text | _ \<Rightarrow> []),
                    doc_embedding = elemAt (hd ess) i,
                    doc_metadata = (case elemAt (hd mss) i of Some m \<Rightarrow> m | None \<Rightarrow> None)\<rparr>"
      by (simp add: resultDocument_def firstRow_def rows)
  qed
  ultimately show ?thesis by blast
qed

text \<open>
  C10, as amended. For a response that passes the shape check and in which \<open>ids\<close> has
  a first row and, unless that row is empty, \<open>documents\<close>, \<open>embeddings\<close> and
  \<open>metadatas\<close> have a first row too, the mapping over the returned ids raises no
  exception and yields one record per id: the id, the document text at that position or
  the empty string when that text is null or undefined, and the embedding and the
  metadata found at that position.
\<close>

theorem reconstitute_total:
  assumes "qr_ids r = Some (ids0 # ids)" "qr_documents r = Some dss"
          "qr_embeddings r = Some ess" "qr_metadatas r = Some mss"
      and "ids0 = [] \<or> (dss \<noteq> [] \<and> ess \<noteq> [] \<and> mss \<noteq> [])"
  shows "\<exists>docs. reconstitute r = Inr docs \<and> length docs = length ids0
           \<and> (\<forall>i < length ids0.
                 doc_id (docs ! i) = ids0 ! i
                 \<and> doc_content (docs ! i) = (case elemAt (hd dss) i of Some (Some text) \<Rightarrow> text | _ \<Rightarrow> [])
                 \<and> (elemAt (hd dss) i = None \<or> elemAt (hd dss) i = Some None \<longrightarrow> doc_content (docs ! i) = [])
                 \<and> doc_embedding (docs ! i) = elemAt (hd ess) i
                 \<and> doc_metadata (docs ! i) = (case elemAt (hd mss) i of Some m \<Rightarrow> m | None \<Rightarrow> None))"
proof -
  from reconstitute_rows[OF assms] obtain docs where
    d: "reconstitute r = Inr docs" "length docs = length ids0"
       "\<forall>i < length ids0.
                 docs ! i =
                   \<lparr>doc_id = ids0 ! i,
                    doc_content = (case elemAt (hd dss) i of Some (Some text) \<Rightarrow> text | _ \<Rightarrow> []),
                    doc_embedding = elemAt (hd ess) i,
                    doc_metadata = (case elemAt (hd mss) i of Some m \<Rightarrow> m | None \<Rightarrow> None)\<rparr>"
    by blast
  have "\<forall>i < length ids0.
                 doc_id (docs ! i) = ids0 ! i
                 \<and> doc_content (docs ! i) = (case elemAt (hd dss) i of Some (Some text) \<Rightarrow> text | _ \<Rightarrow> [])
                 \<and> (elemAt (hd dss) i = None \<or> elemAt (hd dss) i = Some None \<longrightarrow> doc_content (docs ! i) = [])
                 \<and> doc_embedding (docs ! i) = elemAt (hd ess) i
                 \<and> doc_metadata (docs ! i) = (case elemAt (hd mss) i of Some m \<Rightarrow> m | None \<Rightarrow> None)"
    using d(3) by auto
  with d(1,2) show ?thesis by blast
qed

theorem reconstitute_total_witness:
  "\<exists>docs. reconstitute nullDocResponse = Inr docs \<and> length docs = 2
      \<and> doc_id (docs ! 1) = ustr ''b'' \<and> doc_content (docs ! 1) = []
      \<and> doc_embedding (docs ! 1) = None \<and> doc_metadata (docs ! 1) = None"
proof -
  from reconstitute_total [of nullDocResponse "[ustr ''a'', ustr ''b'']" "[]"
      "[[Some (ustr ''text''), None]]" "[[[1, 0]]]" "[[None, None]]"]
  obtain docs where
    d: "reconstitute nullDocResponse = Inr docs" "length docs = 2"
       "\<forall>i < (2::nat). doc_id (docs ! i) = [ustr ''a'', ustr ''b''] ! i
          \<and> doc_content (docs ! i) = (case elemAt [Some (ustr ''text''), None] i of Some (Some text) \<Rightarrow> text | _ \<Rightarrow> [])
          \<and> doc_embedding (docs ! i) = elemAt [[1, 0]] i
          \<and> doc_metadata (docs ! i) = (case elemAt [None, None] i of Some m \<Rightarrow> m | None \<Rightarrow> None)"
    by (auto simp: nullDocResponse_def)
  from d(3) have "doc_id (docs ! 1) = ustr ''b'' \<and> doc_content (docs ! 1) = []
      \<and> doc_embedding (docs ! 1) = None \<and> doc_metadata (docs ! 1) = None"
    by (simp add: elemAt_def)
  with d(1,2) show ?thesis by blast
qed

text \<open>
  The claim as stated fails: a response whose \<open>embeddings\<close> array is present but has no
  row passes the shape check, and the mapping then throws a TypeError at the first id.
\<close>

theorem reconstitute_total_counterexample:
  "qr_ids raggedResponse \<noteq> None \<and> qr_documents raggedResponse \<noteq> None
   \<and> qr_embeddings raggedResponse \<noteq> None \<and> qr_metadatas raggedResponse \<noteq> None
   \<and> reconstitute raggedResponse = Inl TypeError
   \<and> fst (queryDocuments raggedEnv readyState (ustr ''q'') None) = Inl TypeError"
  by code_simp

lemma queryDocuments_default:
  "queryDocuments env st text None = queryDocuments env st text (Some 5)"
  by (simp add: queryDocuments_def split: option.splits prod.splits sum.splits)

lemma queryDocuments_request:
  assumes "collection st = Some h" "embedContent env (events st) text = Inr v"
          "index_fault env (events st @ [Embed text]) = None"
  shows "queryDocuments env st text (Some k) =
           (reconstitute (index_nearest env (events st @ [Embed text]) (rowsOf st h) [v] k),
            st\<lparr>events := events st @ [Embed text, CollectionQuery h [v] k [''documents'', ''metadatas'', ''embeddings'']]\<rparr>)"
  using assms
  by (simp add: queryDocuments_def generateEmbedding_frame chroma_query_def emit_def rowsOf_def includeFields_def)

lemma queryDocuments_events:
  "\<exists>evs. events (snd (queryDocuments env st text topK)) = events st @ evs
         \<and> (\<forall>u. HttpGet u \<notin> set evs)
         \<and> index (snd (queryDocuments env st text topK)) = index st"
proof (cases "collection st")
  case None
  then show ?thesis by (simp add: queryDocuments_def)
next
  case (Some h)
  show ?thesis
  proof (cases "embedContent env (events st) text")
    case (Inl e)
    with Some have "events (snd (queryDocuments env st text topK)) = events st @ [Embed text]"
      "index (snd (queryDocuments env st text topK)) = index st"
      by (simp_all add: queryDocuments_def generateEmbedding_frame emit_def)
    then show ?thesis by (intro exI[of _ "[Embed text]"]) simp
  next
    case (Inr v)
    let ?k = "case topK of None \<Rightarrow> 5 | Some k \<Rightarrow> k"
    from Some Inr have "events (snd (queryDocuments env st text topK)) =
        events st @ [Embed text, CollectionQuery h [v] ?k includeFields]"
      "index (snd (queryDocuments env st text topK)) = index st"
      by (simp_all add: queryDocuments_def generateEmbedding_frame chroma_query_def emit_def
          split: option.splits)
    then show ?thesis
      by (intro exI[of _ "[Embed text, CollectionQuery h [v] ?k includeFields]"]) simp
  qed
qed

lemma reconstitute_ids:
  assumes "qr_ids r = Some (ids0 # ids)" "qr_documents r = Some (ds # dss)"
          "qr_embeddings r = Some (es # ess)" "qr_metadatas r = Some (ms # mss)"
  shows "\<exists>docs. reconstitute r = Inr docs \<and> map doc_id docs = ids0
           \<and> (\<forall>i < length ids0.
                 docs ! i =
                   \<lparr>doc_id = ids0 ! i,
                    doc_content = (case elemAt ds i of Some (Some text) \<Rightarrow> text | _ \<Rightarrow> []),
                    doc_embedding = elemAt es i,
                    doc_metadata = (case elemAt ms i of Some m \<Rightarrow> m | None \<Rightarrow> None)\<rparr>)"
proof -
  from reconstitute_rows [OF assms] obtain docs where
    d: "reconstitute r = Inr docs" "length docs = length ids0"
       "\<forall>i < length ids0.
                 docs ! i =
                   \<lparr>doc_id = ids0 ! i,
                    doc_content = (case elemAt ds i of Some (Some text) \<Rightarrow> text | _ \<Rightarrow> []),
                    doc_embedding = elemAt es i,
                    doc_metadata = (case elemAt ms i of Some m \<Rightarrow> m | None \<Rightarrow> None)\<rparr>"
    by auto
  have "map doc_id docs = ids0"
    using d(2,3) by (intro nth_equalityI) auto
  with d(1,3) show ?thesis by blast
qed

subsection \<open>The calls made by initializeCollection\<close>

lemma opened_nonempty: "index (opened name st) \<noteq> []"
  by (cases "index st") (auto simp: opened_def split: option.splits)

lemma opened_frame:
  "events (opened name st) = events st" "collection (opened name st) = collection st"
  "csvFile (opened name st) = csvFile st"
  by (simp_all add: opened_def split: option.splits)

lemma opened_present: "map_of (index (opened name st)) name \<noteq> None"
  by (auto simp: opened_def map_add_def split: option.splits)

lemma opened_rows: "rowsOf (opened name st) n = rowsOf st n"
  by (auto simp: opened_def rowsOf_def map_add_def split: option.splits)

lemma opened_idem: "map_of (index st) name \<noteq> None \<Longrightarrow> opened name st = st"
  by (auto simp: opened_def split: option.splits)

lemma opened_distinct:
  "distinct (map fst (index st)) \<Longrightarrow> distinct (map fst (index (opened name st)))"
  by (auto simp: opened_def map_of_eq_None_iff split: option.splits)

lemma opened_count:
  "length (filter (\<lambda>p. fst p = name) (index (opened name st)))
     \<le> max 1 (length (filter (\<lambda>p. fst p = name) (index st)))"
proof (cases "map_of (index st) name")
  case None
  then have "name \<notin> fst ` set (index st)" by (simp add: map_of_eq_None_iff)
  then have "filter (\<lambda>p. fst p = name) (index st) = []"
    by (induction "index st") (auto simp: filter_empty_conv)
  with None show ?thesis by (simp add: opened_def)
next
  case (Some c)
  then show ?thesis by (simp add: opened_def)
qed

text \<open>
  After getOrCreateCollection the server has at least one collection, so the count is
  never zero and the branch that runs initDBfromCSV is not taken.
\<close>

lemma initializeCollection_cases:
  "initializeCollection env st name =
     (case index_fault env (events st) of
        Some e \<Rightarrow> (Inl (Lib e), emit (GetOrCreateCollection name cosineSpace) st)
      | None \<Rightarrow>
          (case index_fault env (events st @ [GetOrCreateCollection name cosineSpace]) of
             Some e \<Rightarrow> Inl (Lib e)
           | None \<Rightarrow> Inr (),
           emit CountCollections
             ((emit (GetOrCreateCollection name cosineSpace) (opened name st))\<lparr>collection := Some name\<rparr>)))"
proof (cases "index_fault env (events st)")
  case (Some e)
  then show ?thesis by (simp add: initializeCollection_def client_getOrCreateCollection_def)
next
  case None
  have g: "client_getOrCreateCollection env st name cosineSpace =
             (Inr name, emit (GetOrCreateCollection name cosineSpace) (opened name st))"
    using None by (simp add: client_getOrCreateCollection_def opened_def split: option.splits)
  let ?s = "(emit (GetOrCreateCollection name cosineSpace) (opened name st))\<lparr>collection := Some name\<rparr>"
  have ev: "events ?s = events st @ [GetOrCreateCollection name cosineSpace]"
    by (simp add: emit_def opened_frame)
  have len: "length (index ?s) \<noteq> 0" using opened_nonempty[of name st] by (simp add: emit_def)
  show ?thesis
  proof (cases "index_fault env (events st @ [GetOrCreateCollection name cosineSpace])")
    case (Some e)
    then have "client_countCollections env ?s = (Inl (Lib e), emit CountCollections ?s)"
      using ev by (simp add: client_countCollections_def)
    with g None Some show ?thesis by (simp add: initializeCollection_def)
  next
    case None2: None
    then have "client_countCollections env ?s = (Inr (length (index ?s)), emit CountCollections ?s)"
      using ev by (simp add: client_countCollections_def)
    with g None None2 len show ?thesis by (simp add: initializeCollection_def)
  qed
qed

lemma initializeCollection_first_event:
  "\<exists>evs. events (snd (initializeCollection env st name)) =
           events st @ GetOrCreateCollection name [(ustr ''hnsw:space'', ustr ''cosine'')] # evs"
  by (auto simp: initializeCollection_cases emit_def opened_frame cosineSpace_def split: option.splits)

lemma initializeCollection_effect:
  "\<exists>r st1 evs. initializeCollection env st name = (r, st1)
     \<and> events st1 = events st @ evs
     \<and> set evs \<subseteq> {GetOrCreateCollection name cosineSpace, CountCollections}
     \<and> (index st1 = index st \<or> index st1 = index (opened name st))
     \<and> (r = Inr () \<longrightarrow> map_of (index st1) name \<noteq> None)
     \<and> csvFile st1 = csvFile st"
proof (cases "index_fault env (events st)")
  case (Some e)
  then have "initializeCollection env st name = (Inl (Lib e), emit (GetOrCreateCollection name cosineSpace) st)"
    by (simp add: initializeCollection_cases)
  moreover have "events (emit (GetOrCreateCollection name cosineSpace) st)
                   = events st @ [GetOrCreateCollection name cosineSpace]"
    by (simp add: emit_def)
  ultimately show ?thesis by (auto simp: emit_def)
next
  case None
  let ?s = "emit CountCollections
             ((emit (GetOrCreateCollection name cosineSpace) (opened name st))\<lparr>collection := Some name\<rparr>)"
  obtain r where r: "initializeCollection env st name = (r, ?s)"
    using None by (simp add: initializeCollection_cases)
  have "events ?s = events st @ [GetOrCreateCollection name cosineSpace, CountCollections]"
    by (simp add: emit_def opened_frame)
  moreover have "index ?s = index (opened name st)" by (simp add: emit_def)
  moreover have "map_of (index ?s) name \<noteq> None" using opened_present[of name st] by (simp add: emit_def)
  moreover have "csvFile ?s = csvFile st" by (simp add: emit_def opened_frame)
  ultimately show ?thesis using r by auto
qed

subsection \<open>The contract of queryDocuments\<close>

text \<open>
  C6. queryDocuments uses 5 for a topK that is left out. With an initialized collection,
  it embeds the query text and, when that succeeds and the index answers, sends the
  index one query with that embedding, \<open>nResults = topK\<close> and the fields documents,
  metadatas and embeddings; the collection is always requested with the cosine space.
  A response that lacks ids, documents, embeddings or metadatas is rejected with
  'Invalid response structure'; otherwise the records returned are those of the first
  row of the response, in the order of the response (the index's order), each with the
  id, content, embedding and metadata found at its position.
\<close>

theorem queryDocuments_contract:
  "queryDocuments env st queryText None = queryDocuments env st queryText (Some 5)
   \<and> (collection st = Some h \<and> embedContent env (events st) queryText = Inr v
        \<and> index_fault env (events st @ [Embed queryText]) = None \<longrightarrow>
      queryDocuments env st queryText (Some k) =
        (reconstitute (index_nearest env (events st @ [Embed queryText]) (rowsOf st h) [v] k),
         st\<lparr>events := events st @
               [Embed queryText, CollectionQuery h [v] k [''documents'', ''metadatas'', ''embeddings'']]\<rparr>))
   \<and> (qr_ids r = None \<or> qr_documents r = None \<or> qr_embeddings r = None \<or> qr_metadatas r = None \<longrightarrow>
      reconstitute r = Inl InvalidResponseStructure)
   \<and> (qr_ids r = Some (ids0 # ids) \<and> qr_documents r = Some (ds # dss)
        \<and> qr_embeddings r = Some (es # ess) \<and> qr_metadatas r = Some (ms # mss) \<longrightarrow>
      (\<exists>docs. reconstitute r = Inr docs \<and> map doc_id docs = ids0
         \<and> (\<forall>i < length ids0.
               docs ! i =
                 \<lparr>doc_id = ids0 ! i,
                  doc_content = (case elemAt ds i of Some (Some text) \<Rightarrow> text | _ \<Rightarrow> []),
                  doc_embedding = elemAt es i,
                  doc_metadata = (case elemAt ms i of Some m \<Rightarrow> m | None \<Rightarrow> None)\<rparr>)))
   \<and> (\<exists>evs. events (snd (initializeCollection env st0 name)) =
          events st0 @ GetOrCreateCollection name [(ustr ''hnsw:space'', ustr ''cosine'')] # evs)"
proof -
  have a: "queryDocuments env st queryText None = queryDocuments env st queryText (Some 5)"
    by (rule queryDocuments_default)
  have b: "collection st = Some h \<and> embedContent env (events st) queryText = Inr v
        \<and> index_fault env (events st @ [Embed queryText]) = None \<longrightarrow>
      queryDocuments env st queryText (Some k) =
        (reconstitute (index_nearest env (events st @ [Embed queryText]) (rowsOf st h) [v] k),
         st\<lparr>events := events st @
               [Embed queryText, CollectionQuery h [v] k [''documents'', ''metadatas'', ''embeddings'']]\<rparr>)"
    using queryDocuments_request by blast
  have c: "qr_ids r = None \<or> qr_documents r = None \<or> qr_embeddings r = None \<or> qr_metadatas r = None \<longrightarrow>
      reconstitute r = Inl InvalidResponseStructure"
    using reconstitute_missing by blast
  have d: "qr_ids r = Some (ids0 # ids) \<and> qr_documents r = Some (ds # dss)
        \<and> qr_embeddings r = Some (es # ess) \<and> qr_metadatas r = Some (ms # mss) \<longrightarrow>
      (\<exists>docs. reconstitute r = Inr docs \<and> map doc_id docs = ids0
         \<and> (\<forall>i < length ids0.
               docs ! i =
                 \<lparr>doc_id = ids0 ! i,
                  doc_content = (case elemAt ds i of Some (Some text) \<Rightarrow> text | _ \<Rightarrow> []),
                  doc_embedding = elemAt es i,
                  doc_metadata = (case elemAt ms i of Some m \<Rightarrow> m | None \<Rightarrow> None)\<rparr>))"
    using reconstitute_ids by blast
  from a b c d initializeCollection_first_event [of env st0 name] show ?thesis by blast
qed

lemma demo_query:
  "fst (queryDocuments demoEnv libraryState (ustr ''q'') (Some 1)) =
     Inr [\<lparr>doc_id = ustr ''a'', doc_content = ustr ''first'', doc_embedding = Some [1, 0],
           doc_metadata = Some [(ustr ''url'', MString (ustr ''http://a''))]\<rparr>]"
  by code_simp

theorem queryDocuments_contract_witness:
  "collection libraryState = Some (ustr ''test_rag'')
   \<and> embedContent demoEnv (events libraryState) (ustr ''q'') = Inr [1, 0]
   \<and> index_fault demoEnv (events libraryState @ [Embed (ustr ''q'')]) = None
   \<and> queryDocuments demoEnv libraryState (ustr ''q'') None
       = queryDocuments demoEnv libraryState (ustr ''q'') (Some 5)
   \<and> queryDocuments demoEnv libraryState (ustr ''q'') (Some 1) =
        (reconstitute (index_nearest demoEnv (events libraryState @ [Embed (ustr ''q'')])
                         (rowsOf libraryState (ustr ''test_rag'')) [[1, 0]] 1),
         libraryState\<lparr>events := events libraryState @
            [Embed (ustr ''q''),
             CollectionQuery (ustr ''test_rag'') [[1, 0]] 1 [''documents'', ''metadatas'', ''embeddings'']]\<rparr>)
   \<and> fst (queryDocuments demoEnv libraryState (ustr ''q'') (Some 1)) =
        Inr [\<lparr>doc_id = ustr ''a'', doc_content = ustr ''first'', doc_embedding = Some [1, 0],
              doc_metadata = Some [(ustr ''url'', MString (ustr ''http://a''))]\<rparr>]"
proof -
  have h1: "collection libraryState = Some (ustr ''test_rag'')"
    by (simp add: libraryState_def demoState_def)
  have h2: "embedContent demoEnv (events libraryState) (ustr ''q'') = Inr [1, 0]"
    by (simp add: demoEnv_def)
  have h3: "index_fault demoEnv (events libraryState @ [Embed (ustr ''q'')]) = None"
    by (simp add: demoEnv_def)
  from queryDocuments_contract [where env = demoEnv and st = libraryState and queryText = "ustr ''q''"
      and h = "ustr ''test_rag''" and v = "[1, 0]" and k = 1] h1 h2 h3 demo_query
  show ?thesis by simp
qed

section \<open>Properties of initializeCollection\<close>

text \<open>
  C2. Two calls of initializeCollection with the same name, one after the other, make no
  call but getOrCreateCollection and countCollections: the ingestion from the article
  source is not run, whatever the collection holds, so it is never run on a collection
  that is not empty, and no row of any collection changes. The server ends with at most
  one collection of that name when it started with at most one, distinct names stay
  distinct, and after a first call that succeeded the second leaves the collections as
  they were.
\<close>

theorem initializeCollection_idempotent:
  "\<exists>r1 st1 r2 st2 evs1 evs2.
      initializeCollection env st name = (r1, st1)
    \<and> initializeCollection env st1 name = (r2, st2)
    \<and> events st1 = events st @ evs1 \<and> events st2 = events st1 @ evs2
    \<and> set (evs1 @ evs2) \<subseteq> {GetOrCreateCollection name cosineSpace, CountCollections}
    \<and> length (filter (\<lambda>p. fst p = name) (index st2))
         \<le> max 1 (length (filter (\<lambda>p. fst p = name) (index st)))
    \<and> (distinct (map fst (index st)) \<longrightarrow> distinct (map fst (index st2)))
    \<and> (r1 = Inr () \<longrightarrow> index st2 = index st1)
    \<and> (\<forall>n. rowsOf st2 n = rowsOf st n)"
proof -
  from initializeCollection_effect[of env st name] obtain r1 st1 evs1 where
    a: "initializeCollection env st name = (r1, st1)" "events st1 = events st @ evs1"
       "set evs1 \<subseteq> {GetOrCreateCollection name cosineSpace, CountCollections}"
       "index st1 = index st \<or> index st1 = index (opened name st)"
       "r1 = Inr () \<longrightarrow> map_of (index st1) name \<noteq> None" by blast
  from initializeCollection_effect[of env st1 name] obtain r2 st2 evs2 where
    b: "initializeCollection env st1 name = (r2, st2)" "events st2 = events st1 @ evs2"
       "set evs2 \<subseteq> {GetOrCreateCollection name cosineSpace, CountCollections}"
       "index st2 = index st1 \<or> index st2 = index (opened name st1)" by blast
  have idx: "index st2 = index st \<or> index st2 = index (opened name st)"
  proof -
    have "index (opened name st1) = index st \<or> index (opened name st1) = index (opened name st)"
    proof (cases "index st1 = index st")
      case True
      then show ?thesis by (simp add: opened_def split: option.splits)
    next
      case False
      with a(4) have e: "index st1 = index (opened name st)" by simp
      then have "map_of (index st1) name \<noteq> None" using opened_present[of name st] by simp
      then have "opened name st1 = st1" by (rule opened_idem)
      with e show ?thesis by simp
    qed
    with a(4) b(4) show ?thesis by auto
  qed
  have cnt: "length (filter (\<lambda>p. fst p = name) (index st2))
         \<le> max 1 (length (filter (\<lambda>p. fst p = name) (index st)))"
    using idx opened_count[of name st] by auto
  have dis: "distinct (map fst (index st)) \<longrightarrow> distinct (map fst (index st2))"
    using idx opened_distinct[of st name] by auto
  have same: "r1 = Inr () \<longrightarrow> index st2 = index st1"
  proof
    assume "r1 = Inr ()"
    with a(5) have "map_of (index st1) name \<noteq> None" by simp
    then have "opened name st1 = st1" by (rule opened_idem)
    with b(4) show "index st2 = index st1" by auto
  qed
  have rows: "\<forall>n. rowsOf st2 n = rowsOf st n"
  proof
    fix n
    from idx show "rowsOf st2 n = rowsOf st n"
      using opened_rows[of name st n] by (auto simp: rowsOf_def)
  qed
  have "set (evs1 @ evs2) \<subseteq> {GetOrCreateCollection name cosineSpace, CountCollections}"
    using a(3) b(3) by simp
  with a(1,2) b(1,2) cnt dis same rows show ?thesis by blast
qed

lemma demo_initialize:
  "initializeCollection demoEnv demoState (ustr ''test_rag'') =
     (Inr (),
      \<lparr>events = [GetOrCreateCollection (ustr ''test_rag'') cosineSpace, CountCollections],
       index = [(ustr ''test_rag'', \<lparr>col_metadata = cosineSpace, col_rows = []\<rparr>)],
       collection = Some (ustr ''test_rag''),
       csvFile = ustr ''articles_dataset.csv''\<rparr>)"
  by code_simp

theorem initializeCollection_idempotent_witness:
  "distinct (map fst (index demoState))
   \<and> fst (initializeCollection demoEnv demoState (ustr ''test_rag'')) = Inr ()
   \<and> index (snd (initializeCollection demoEnv
         (snd (initializeCollection demoEnv demoState (ustr ''test_rag''))) (ustr ''test_rag'')))
       = [(ustr ''test_rag'', \<lparr>col_metadata = cosineSpace, col_rows = []\<rparr>)]
   \<and> distinct (map fst (index (snd (initializeCollection demoEnv
         (snd (initializeCollection demoEnv demoState (ustr ''test_rag''))) (ustr ''test_rag'')))))"
proof -
  have d: "distinct (map fst (index demoState))" by (simp add: demoState_def)
  from initializeCollection_idempotent [of demoEnv demoState "ustr ''test_rag''"]
  obtain r1 st1 r2 st2 where
    h: "initializeCollection demoEnv demoState (ustr ''test_rag'') = (r1, st1)"
       "initializeCollection demoEnv st1 (ustr ''test_rag'') = (r2, st2)"
       "distinct (map fst (index demoState)) \<longrightarrow> distinct (map fst (index st2))"
       "r1 = Inr () \<longrightarrow> index st2 = index st1"
    by blast
  from h(1) demo_initialize have r1: "r1 = Inr ()" and
    i1: "index st1 = [(ustr ''test_rag'', \<lparr>col_metadata = cosineSpace, col_rows = []\<rparr>)]"
    by auto
  from r1 h(4) i1 have "index st2 = [(ustr ''test_rag'', \<lparr>col_metadata = cosineSpace, col_rows = []\<rparr>)]"
    by simp
  moreover from d h(3) have "distinct (map fst (index st2))" by simp
  ultimately show ?thesis using d h(1,2) r1 by simp
qed

section \<open>Properties of initDBfromCSV\<close>




lemma slice_length: "length (slice i (i + BATCH_SIZE) xs) \<le> 5"
  by (simp add: slice_def BATCH_SIZE_def)











section \<open>Properties of the context of the /agent handler\<close>

lemma scheme_clash: "\<not> prefix (ustr ''https://'') (ustr ''http://'' @ c # rest)"
  by (simp add: ustr_def)

lemma urlAt_Some:
  assumes "urlAt s = Some m"
  shows "\<exists>scheme c cs. (scheme = ustr ''http://'' \<or> scheme = ustr ''https://'')
           \<and> m = scheme @ c # cs \<and> \<not> isWhiteSpace c \<and> prefix m s"
proof -
  from assms obtain scheme c cs where
    sch: "scheme = ustr ''http://'' \<or> scheme = ustr ''https://''" "prefix scheme s" and
    tw: "takeWhile (\<lambda>c. \<not> isWhiteSpace c) (drop (length scheme) s) = c # cs" and
    m: "m = scheme @ c # cs"
    by (auto simp: urlAt_def split: if_splits list.splits)
  from tw have "c \<in> set (takeWhile (\<lambda>c. \<not> isWhiteSpace c) (drop (length scheme) s))" by simp
  then have nws: "\<not> isWhiteSpace c" by (rule set_takeWhileD[THEN conjunct2])
  from sch(2) obtain rest where s: "s = scheme @ rest" by (auto simp: prefix_def)
  have "prefix (takeWhile (\<lambda>c. \<not> isWhiteSpace c) rest) rest"
    by (metis takeWhile_dropWhile_id prefixI)
  with tw s have "prefix (c # cs) rest" by simp
  with s m have "prefix m s" by simp
  with sch(1) m nws show ?thesis by blast
qed

lemma urlAt_shape:
  assumes "scheme = ustr ''http://'' \<or> scheme = ustr ''https://''" "\<not> isWhiteSpace c"
  shows "urlAt (scheme @ c # rest) \<noteq> None"
  using assms by (auto simp: urlAt_def scheme_clash)

lemma urlMatches_Some:
  "urlAt (c # cs) = Some m \<Longrightarrow> urlMatches (c # cs) = m # urlMatches (drop (length m) (c # cs))"
  by (simp only: urlMatches.simps option.case)

lemma urlMatches_None:
  "urlAt (c # cs) = None \<Longrightarrow> urlMatches (c # cs) = urlMatches cs"
  by (simp only: urlMatches.simps option.case)

lemma urlMatches_first:
  "urlMatches q = u # us \<Longrightarrow>
   \<exists>pre rest. q = pre @ u @ rest \<and> urlAt (u @ rest) = Some u
      \<and> (\<forall>k < length pre. urlAt (drop k q) = None)"
proof (induction q rule: urlMatches.induct)
  case 1
  then show ?case by simp
next
  case (2 c cs)
  show ?case
  proof (cases "urlAt (c # cs)")
    case (Some m)
    with "2.prems" have um: "u = m" by (simp only: urlMatches_Some list.inject)
    from urlAt_Some[OF Some] have "prefix m (c # cs)" by blast
    then obtain rest where r: "c # cs = m @ rest" by (auto simp: prefix_def)
    have "c # cs = [] @ u @ rest \<and> urlAt (u @ rest) = Some u
            \<and> (\<forall>k < length ([]::ustring). urlAt (drop k (c # cs)) = None)"
      using r um Some by (simp del: urlMatches.simps)
    then show ?thesis by blast
  next
    case None
    with "2.prems" have "urlMatches cs = u # us" by (simp only: urlMatches_None)
    from "2.IH"(1)[OF None this] obtain pre rest where
      ih: "cs = pre @ u @ rest" "urlAt (u @ rest) = Some u"
          "\<forall>k < length pre. urlAt (drop k cs) = None" by blast
    have "\<forall>k < length (c # pre). urlAt (drop k (c # cs)) = None"
    proof (intro allI impI)
      fix k assume "k < length (c # pre)"
      then show "urlAt (drop k (c # cs)) = None"
        using None ih(3) by (cases k) (auto simp del: urlMatches.simps)
    qed
    moreover have "c # cs = (c # pre) @ u @ rest" using ih(1) by simp
    ultimately show ?thesis using ih(2) by blast
  qed
qed

lemma urlMatches_Nil:
  "urlMatches q = [] \<longleftrightarrow> (\<forall>k < length q. urlAt (drop k q) = None)"
proof (induction q rule: urlMatches.induct)
  case 1
  then show ?case by simp
next
  case (2 c cs)
  show ?case
  proof (cases "urlAt (c # cs)")
    case (Some m)
    then have "urlMatches (c # cs) \<noteq> []" by (simp only: urlMatches_Some) simp
    moreover have "\<not> (\<forall>k < length (c # cs). urlAt (drop k (c # cs)) = None)"
      using Some by (auto simp del: urlMatches.simps intro: exI[of _ 0])
    ultimately show ?thesis by blast
  next
    case None
    then have "urlMatches (c # cs) = urlMatches cs" by (rule urlMatches_None)
    moreover have "(\<forall>k < length (c # cs). urlAt (drop k (c # cs)) = None)
                    \<longleftrightarrow> (\<forall>k < length cs. urlAt (drop k cs) = None)"
    proof
      assume a: "\<forall>k < length (c # cs). urlAt (drop k (c # cs)) = None"
      show "\<forall>k < length cs. urlAt (drop k cs) = None"
      proof (intro allI impI)
        fix k assume "k < length cs"
        with a[rule_format, of "Suc k"] show "urlAt (drop k cs) = None" by simp
      qed
    next
      assume a: "\<forall>k < length cs. urlAt (drop k cs) = None"
      show "\<forall>k < length (c # cs). urlAt (drop k (c # cs)) = None"
      proof (intro allI impI)
        fix k assume "k < length (c # cs)"
        then show "urlAt (drop k (c # cs)) = None"
          using None a by (cases k) (auto simp del: urlMatches.simps)
      qed
    qed
    ultimately show ?thesis using "2.IH"(1)[OF None] by (simp del: urlMatches.simps)
  qed
qed


lemma urlMatches_contains1:
  assumes "urlMatches q \<noteq> []"
  shows "(\<exists>pre scheme c rest. q = pre @ scheme @ c # rest
        \<and> (scheme = ustr ''http://'' \<or> scheme = ustr ''https://'') \<and> \<not> isWhiteSpace c)"
proof -
  from assms obtain u us where "urlMatches q = u # us" by (cases "urlMatches q") blast+
  from urlMatches_first[OF this] obtain pre rest where
    q: "q = pre @ u @ rest" and at: "urlAt (u @ rest) = Some u" by blast
  from urlAt_Some[OF at] obtain scheme c cs where
    sc: "scheme = ustr ''http://'' \<or> scheme = ustr ''https://''" and
    u: "u = scheme @ c # cs" and nws: "\<not> isWhiteSpace c"
    by blast
  have "pre @ (scheme @ c # cs) @ rest = pre @ scheme @ c # (cs @ rest)"
    by (simp only: append_assoc append_Cons)
  then have "q = pre @ scheme @ c # (cs @ rest)" unfolding q u .
  with sc nws show ?thesis by blast
qed


lemma urlMatches_contains2:
  assumes q: "q = pre @ scheme @ c # rest" and
    sc: "scheme = ustr ''http://'' \<or> scheme = ustr ''https://''" "\<not> isWhiteSpace c"
  shows "urlMatches q \<noteq> []"
proof -
  have d: "drop (length pre) (pre @ scheme @ c # rest) = scheme @ c # rest"
    by simp
  have "urlAt (scheme @ c # rest) \<noteq> None" by (rule urlAt_shape[OF sc])
  then have "urlAt (drop (length pre) q) \<noteq> None" by (simp only: q d not_False_eq_True)
  then have ex: "urlAt (drop (length pre) q) \<noteq> None" .
  have lt: "length pre < length q" by (simp add: q)
  show "urlMatches q \<noteq> []"
  proof
    assume "urlMatches q = []"
    then have all: "\<forall>k < length q. urlAt (drop k q) = None"
      by (rule urlMatches_Nil[THEN iffD1])
    from all[rule_format, OF lt] ex show False by (rule notE[rotated])
  qed
qed

lemma urlMatches_contains:
  "urlMatches q \<noteq> [] \<longleftrightarrow>
     (\<exists>pre scheme c rest. q = pre @ scheme @ c # rest
        \<and> (scheme = ustr ''http://'' \<or> scheme = ustr ''https://'') \<and> \<not> isWhiteSpace c)"
proof
  assume "urlMatches q \<noteq> []"
  then show "\<exists>pre scheme c rest. q = pre @ scheme @ c # rest
        \<and> (scheme = ustr ''http://'' \<or> scheme = ustr ''https://'') \<and> \<not> isWhiteSpace c"
    by (rule urlMatches_contains1)
next
  assume "\<exists>pre scheme c rest. q = pre @ scheme @ c # rest
        \<and> (scheme = ustr ''http://'' \<or> scheme = ustr ''https://'') \<and> \<not> isWhiteSpace c"
  then obtain pre scheme c rest where
    "q = pre @ scheme @ c # rest"
    "scheme = ustr ''http://'' \<or> scheme = ustr ''https://''" "\<not> isWhiteSpace c"
    by (elim exE conjE)
  then show "urlMatches q \<noteq> []" by (rule urlMatches_contains2)
qed

text \<open>
  C4. The regular expression finds a match in the query exactly when the query contains
  \<open>http://\<close> or \<open>https://\<close> followed by a character that is not white space. When
  it does, the first match is the one at the leftmost position where the expression
  matches; the context is the content of the article that scrapeArticle composes for
  that URL, and the only call made is the fetch of that URL: the vector index is not
  queried. When it does not, the context is what queryDocuments returns for the query
  with \<open>topK = 7\<close>, the contents of the documents joined with three newlines (blank
  lines between them), or the error of queryDocuments, and no fetch is made.
\<close>

theorem agentContext_routing:
  "(urlMatches query \<noteq> [] \<longleftrightarrow>
      (\<exists>pre scheme c rest. query = pre @ scheme @ c # rest
         \<and> (scheme = ustr ''http://'' \<or> scheme = ustr ''https://'') \<and> \<not> isWhiteSpace c))
   \<and> (\<forall>u us. urlMatches query = u # us \<longrightarrow>
         (\<exists>pre rest. query = pre @ u @ rest \<and> urlAt (u @ rest) = Some u
            \<and> (\<forall>k < length pre. urlAt (drop k query) = None))
         \<and> (\<exists>articleData. scrapeArticle env st u = (Inr articleData, emit (HttpGet u) st)
              \<and> agentContext env st query = (Inr (pa_content articleData), emit (HttpGet u) st)))
   \<and> (urlMatches query = [] \<longrightarrow>
         (\<exists>r st' evs. queryDocuments env st query (Some 7) = (r, st')
            \<and> agentContext env st query =
                ((case r of
                    Inl e \<Rightarrow> Inl e
                  | Inr chunks \<Rightarrow> Inr (join (newline @ newline @ newline) (map doc_content chunks))),
                 st')
            \<and> events st' = events st @ evs \<and> (\<forall>u. HttpGet u \<notin> set evs)))"
proof (intro conjI allI impI)
  show "urlMatches query \<noteq> [] \<longleftrightarrow>
      (\<exists>pre scheme c rest. query = pre @ scheme @ c # rest
         \<and> (scheme = ustr ''http://'' \<or> scheme = ustr ''https://'') \<and> \<not> isWhiteSpace c)"
    by (rule urlMatches_contains)
next
  fix u us assume m: "urlMatches query = u # us"
  then show "\<exists>pre rest. query = pre @ u @ rest \<and> urlAt (u @ rest) = Some u
            \<and> (\<forall>k < length pre. urlAt (drop k query) = None)"
    by (rule urlMatches_first)
  from scrapeArticle_total[of env st u] obtain a where a: "fst (scrapeArticle env st u) = Inr a" by blast
  with scrapeArticle_state[of env st u] have s: "scrapeArticle env st u = (Inr a, emit (HttpGet u) st)"
    by (cases "scrapeArticle env st u") simp
  with m have "agentContext env st query = (Inr (pa_content a), emit (HttpGet u) st)"
    by (simp add: agentContext_def queryMatch_def)
  with s show "\<exists>articleData. scrapeArticle env st u = (Inr articleData, emit (HttpGet u) st)
              \<and> agentContext env st query = (Inr (pa_content articleData), emit (HttpGet u) st)"
    by blast
next
  assume m: "urlMatches query = []"
  obtain r st' where q: "queryDocuments env st query (Some 7) = (r, st')"
    by (cases "queryDocuments env st query (Some 7)")
  from queryDocuments_events[of env st query "Some 7"] q obtain evs where
    ev: "events st' = events st @ evs" "\<forall>u. HttpGet u \<notin> set evs" by auto
  have "agentContext env st query =
                ((case r of
                    Inl e \<Rightarrow> Inl e
                  | Inr chunks \<Rightarrow> Inr (join (newline @ newline @ newline) (map doc_content chunks))),
                 st')"
    using m q by (simp add: agentContext_def queryMatch_def split: sum.splits)
  with q ev show "\<exists>r st' evs. queryDocuments env st query (Some 7) = (r, st')
            \<and> agentContext env st query =
                ((case r of
                    Inl e \<Rightarrow> Inl e
                  | Inr chunks \<Rightarrow> Inr (join (newline @ newline @ newline) (map doc_content chunks))),
                 st')
            \<and> events st' = events st @ evs \<and> (\<forall>u. HttpGet u \<notin> set evs)"
    by blast
qed

lemma demo_urlMatches:
  "urlMatches linkQuery = [ustr ''https://example.com/a'']" "urlMatches plainQuery = []"
  by code_simp+

lemma demo_plain_context:
  "fst (agentContext demoEnv libraryState plainQuery) =
     Inr (ustr ''first'' @ newline @ newline @ newline @ ustr ''second'')"
  by code_simp

theorem agentContext_routing_witness:
  "urlMatches linkQuery = [ustr ''https://example.com/a'']
   \<and> (\<exists>articleData.
         scrapeArticle demoEnv libraryState (ustr ''https://example.com/a'') =
           (Inr articleData, emit (HttpGet (ustr ''https://example.com/a'')) libraryState)
         \<and> agentContext demoEnv libraryState linkQuery =
           (Inr (pa_content articleData), emit (HttpGet (ustr ''https://example.com/a'')) libraryState))
   \<and> urlMatches plainQuery = []
   \<and> (\<exists>r st' evs. queryDocuments demoEnv libraryState plainQuery (Some 7) = (r, st')
         \<and> agentContext demoEnv libraryState plainQuery =
             ((case r of
                 Inl e \<Rightarrow> Inl e
               | Inr chunks \<Rightarrow> Inr (join (newline @ newline @ newline) (map doc_content chunks))),
              st')
         \<and> events st' = events libraryState @ evs \<and> (\<forall>u. HttpGet u \<notin> set evs))
   \<and> fst (agentContext demoEnv libraryState plainQuery) =
        Inr (ustr ''first'' @ newline @ newline @ newline @ ustr ''second'')"
proof -
  note a = agentContext_routing [of linkQuery demoEnv libraryState]
  note b = agentContext_routing [of plainQuery demoEnv libraryState]
  from a demo_urlMatches(1) have
    "\<exists>articleData.
         scrapeArticle demoEnv libraryState (ustr ''https://example.com/a'') =
           (Inr articleData, emit (HttpGet (ustr ''https://example.com/a'')) libraryState)
         \<and> agentContext demoEnv libraryState linkQuery =
           (Inr (pa_content articleData), emit (HttpGet (ustr ''https://example.com/a'')) libraryState)"
    by blast
  moreover from b demo_urlMatches(2) have
    "\<exists>r st' evs. queryDocuments demoEnv libraryState plainQuery (Some 7) = (r, st')
         \<and> agentContext demoEnv libraryState plainQuery =
             ((case r of
                 Inl e \<Rightarrow> Inl e
               | Inr chunks \<Rightarrow> Inr (join (newline @ newline @ newline) (map doc_content chunks))),
              st')
         \<and> events st' = events libraryState @ evs \<and> (\<forall>u. HttpGet u \<notin> set evs)"
    by blast
  ultimately show ?thesis using demo_urlMatches demo_plain_context by blast
qed

end
